theory Spec2Isabelle
  imports Main "HOL-Library.Word"
begin

unbundle bit_operations_syntax

section \<open>Python values: bytes, errors, sequences\<close>

text \<open>
  The assembler (\<^verbatim>\<open>assembler.py\<close>) and the interpreter (\<^verbatim>\<open>interpreter.py\<close>) compute
  on Python's unbounded integers, modelled as \<^typ>\<open>int\<close>, on \<^verbatim>\<open>bytes\<close> objects, modelled
  as lists of 8-bit words, and on a Python list of integers (the data memory).
  Every exception the code can raise is a value of \<open>error\<close>.
\<close>

type_synonym byte = "8 word"

text \<open>
  The operand named at the head of a range message of the assembler: \<^verbatim>\<open>Konstanta\<close>,
  \<^verbatim>\<open>Adres\<close>, \<^verbatim>\<open>Smeshchenie\<close>, \<^verbatim>\<open>Smeshchenie1\<close>, \<^verbatim>\<open>Smeshchenie2\<close>, \<^verbatim>\<open>Adres1\<close>,
  \<^verbatim>\<open>Adres2\<close>, \<^verbatim>\<open>Adres rezultata\<close> (the source writes them in Russian).
\<close>

datatype operand =
  Constant | Address | Offset | Offset1 | Offset2 | Address1 | Address2 | ResultAddress

text \<open>
  \<open>ValueError_Range label v lo hi\<close> is the \<^verbatim>\<open>ValueError\<close> of a constructor, whose message
  holds the label, the value \<open>v\<close> and the range \<open>[lo, hi]\<close>;
  \<open>ValueError_UnknownOpcode opcode pc\<close> is the \<^verbatim>\<open>ValueError\<close> of \<^verbatim>\<open>step\<close>, whose message
  holds the opcode and the position; \<open>ValueError_NegativeShift\<close> is what Python raises on
  a shift by a negative count; \<open>OverflowError\<close> is what \<^verbatim>\<open>int.to_bytes\<close> raises on a
  negative integer or one that does not fit; \<open>IndexError\<close> is what list indexing raises
  out of range.
\<close>

datatype error =
    ValueError_Range operand int int int
  | ValueError_UnknownOpcode int int
  | ValueError_NegativeShift
  | OverflowError
  | IndexError

text \<open>
  The position an index \<open>i\<close> denotes in a Python list of length \<open>n\<close>: a negative index
  counts from the end, and an index outside \<open>[-n, n)\<close> raises \<^verbatim>\<open>IndexError\<close>.
\<close>

definition py_index :: "nat \<Rightarrow> int \<Rightarrow> error + nat" where
  "py_index n i =
     (let j = (if i < 0 then i + int n else i)
      in if 0 \<le> j \<and> j < int n then Inr (nat j) else Inl IndexError)"

text \<open>\<^verbatim>\<open>xs[i]\<close>, a read of a Python list.\<close>

definition py_getitem :: "'a list \<Rightarrow> int \<Rightarrow> error + 'a" where
  "py_getitem xs i = (case py_index (length xs) i of Inl e \<Rightarrow> Inl e | Inr k \<Rightarrow> Inr (xs ! k))"

text \<open>\<^verbatim>\<open>xs[i] = v\<close>, a store to a Python list; the result is the list after the store.\<close>

definition py_setitem :: "'a list \<Rightarrow> int \<Rightarrow> 'a \<Rightarrow> error + 'a list" where
  "py_setitem xs i v =
     (case py_index (length xs) i of Inl e \<Rightarrow> Inl e | Inr k \<Rightarrow> Inr (xs[k := v]))"

text \<open>
  One bound of a slice \<^verbatim>\<open>xs[i:j]\<close>, as Python adjusts it to a sequence of length \<open>n\<close>:
  a negative bound counts from the end, and every bound is clamped to \<open>[0, n]\<close>.
\<close>

definition adjust_index :: "int \<Rightarrow> int \<Rightarrow> int" where
  "adjust_index n i = (if i < 0 then (if i + n < 0 then 0 else i + n) else if n \<le> i then n else i)"

text \<open>\<^verbatim>\<open>xs[i:j]\<close>: never raises; empty when the adjusted bounds cross.\<close>

definition py_slice :: "'a list \<Rightarrow> int \<Rightarrow> int \<Rightarrow> 'a list" where
  "py_slice xs i j =
     (let n = int (length xs); a = adjust_index n i; b = adjust_index n j
      in take (nat (b - a)) (drop (nat a) xs))"

text \<open>\<^verbatim>\<open>int.from_bytes(bs, byteorder='little')\<close>: the first byte is the least significant.\<close>

fun from_bytes_little :: "byte list \<Rightarrow> int" where
  "from_bytes_little [] = 0"
| "from_bytes_little (b # bs) = uint b + 256 * from_bytes_little bs"

text \<open>The \<open>n\<close> low bytes of \<open>v\<close>, least significant first.\<close>

fun bytes_little :: "nat \<Rightarrow> int \<Rightarrow> byte list" where
  "bytes_little 0 v = []"
| "bytes_little (Suc n) v = word_of_int (v AND 255) # bytes_little n (drop_bit 8 v)"

text \<open>
  \<^verbatim>\<open>v.to_bytes(n, byteorder='little')\<close>: raises \<^verbatim>\<open>OverflowError\<close> on a negative \<open>v\<close> and
  on a \<open>v\<close> that does not fit \<open>n\<close> bytes.
\<close>

definition int_to_bytes :: "int \<Rightarrow> nat \<Rightarrow> error + byte list" where
  "int_to_bytes v n =
     (if v < 0 then Inl OverflowError
      else if 2 ^ (8 * n) \<le> v then Inl OverflowError
      else Inr (bytes_little n v))"

section \<open>The assembler: instructions and their encoding\<close>

text \<open>
  The four instruction classes. An object holds its operands; its opcode is fixed by
  its class (111, 40, 101, 68).
\<close>

datatype instruction =
    LoadConst int int
  | ReadMem int int int
  | WriteMem int int
  | Gte int int int int int

fun opcode_of :: "instruction \<Rightarrow> int" where
  "opcode_of (LoadConst constant address) = 111"
| "opcode_of (ReadMem offset src_addr dst_addr) = 40"
| "opcode_of (WriteMem src_addr dst_addr) = 101"
| "opcode_of (Gte offset1 addr1 addr2 res_addr offset2) = 68"

text \<open>
  The constructors \<^verbatim>\<open>__init__\<close>: each checks its operands in the order of the source
  and raises on the first one out of range; no object exists after a raise.
\<close>

definition LoadConstInstruction :: "int \<Rightarrow> int \<Rightarrow> error + instruction" where
  "LoadConstInstruction constant address =
     (if \<not> (0 \<le> constant \<and> constant < 2048)
        then Inl (ValueError_Range Constant constant 0 2047)
      else if \<not> (0 \<le> address \<and> address < 67108864)
        then Inl (ValueError_Range Address address 0 67108863)
      else Inr (LoadConst constant address))"

definition ReadMemInstruction :: "int \<Rightarrow> int \<Rightarrow> int \<Rightarrow> error + instruction" where
  "ReadMemInstruction offset src_addr dst_addr =
     (if \<not> (0 \<le> offset \<and> offset < 256)
        then Inl (ValueError_Range Offset offset 0 255)
      else if \<not> (0 \<le> src_addr \<and> src_addr < 67108864)
        then Inl (ValueError_Range Address src_addr 0 67108863)
      else if \<not> (0 \<le> dst_addr \<and> dst_addr < 67108864)
        then Inl (ValueError_Range Address dst_addr 0 67108863)
      else Inr (ReadMem offset src_addr dst_addr))"

definition WriteMemInstruction :: "int \<Rightarrow> int \<Rightarrow> error + instruction" where
  "WriteMemInstruction src_addr dst_addr =
     (if \<not> (0 \<le> src_addr \<and> src_addr < 67108864)
        then Inl (ValueError_Range Address src_addr 0 67108863)
      else if \<not> (0 \<le> dst_addr \<and> dst_addr < 67108864)
        then Inl (ValueError_Range Address dst_addr 0 67108863)
      else Inr (WriteMem src_addr dst_addr))"

definition GTEInstruction :: "int \<Rightarrow> int \<Rightarrow> int \<Rightarrow> int \<Rightarrow> int \<Rightarrow> error + instruction" where
  "GTEInstruction offset1 addr1 addr2 res_addr offset2 =
     (if \<not> (0 \<le> offset1 \<and> offset1 < 256)
        then Inl (ValueError_Range Offset1 offset1 0 255)
      else if \<not> (0 \<le> offset2 \<and> offset2 < 256)
        then Inl (ValueError_Range Offset2 offset2 0 255)
      else if \<not> (0 \<le> addr1 \<and> addr1 < 67108864)
        then Inl (ValueError_Range Address1 addr1 0 67108863)
      else if \<not> (0 \<le> addr2 \<and> addr2 < 67108864)
        then Inl (ValueError_Range Address2 addr2 0 67108863)
      else if \<not> (0 \<le> res_addr \<and> res_addr < 67108864)
        then Inl (ValueError_Range ResultAddress res_addr 0 67108863)
      else Inr (Gte offset1 addr1 addr2 res_addr offset2))"

text \<open>
  The integer \<^verbatim>\<open>value\<close> that \<^verbatim>\<open>to_bytes\<close> packs: the fields shifted to their bit
  offsets and combined with \<^verbatim>\<open>|\<close>.
\<close>

fun packed_value :: "instruction \<Rightarrow> int" where
  "packed_value (LoadConst constant address) =
     111 OR push_bit 7 constant OR push_bit 18 address"
| "packed_value (ReadMem offset src_addr dst_addr) =
     40 OR push_bit 7 offset OR push_bit 15 src_addr OR push_bit 41 dst_addr"
| "packed_value (WriteMem src_addr dst_addr) =
     101 OR push_bit 7 src_addr OR push_bit 33 dst_addr"
| "packed_value (Gte offset1 addr1 addr2 res_addr offset2) =
     68 OR push_bit 7 offset1 OR push_bit 15 addr1 OR push_bit 41 addr2
        OR push_bit 67 res_addr OR push_bit 93 offset2"

text \<open>The byte count each class passes to \<^verbatim>\<open>int.to_bytes\<close>.\<close>

fun byte_length :: "instruction \<Rightarrow> nat" where
  "byte_length (LoadConst constant address) = 6"
| "byte_length (ReadMem offset src_addr dst_addr) = 9"
| "byte_length (WriteMem src_addr dst_addr) = 8"
| "byte_length (Gte offset1 addr1 addr2 res_addr offset2) = 13"

text \<open>\<^verbatim>\<open>to_bytes\<close> of each class.\<close>

definition to_bytes :: "instruction \<Rightarrow> error + byte list" where
  "to_bytes i = int_to_bytes (packed_value i) (byte_length i)"

text \<open>
  \<^verbatim>\<open>Assembler.to_binary\<close>: the encodings concatenated in list order; an exception of one
  \<^verbatim>\<open>to_bytes\<close> ends the loop.
\<close>

fun to_binary :: "instruction list \<Rightarrow> error + byte list" where
  "to_binary [] = Inr []"
| "to_binary (instr # instrs) =
     (case to_bytes instr of
        Inl e \<Rightarrow> Inl e
      | Inr bs \<Rightarrow> (case to_binary instrs of Inl e \<Rightarrow> Inl e | Inr rest \<Rightarrow> Inr (bs @ rest)))"

section \<open>The interpreter\<close>

text \<open>The fields of \<^verbatim>\<open>VirtualMachine\<close>.\<close>

record vm =
  data_memory :: "int list"
  code_memory :: "byte list"
  pc :: int

text \<open>\<^verbatim>\<open>__init__\<close>: \<^verbatim>\<open>[0] * memory_size\<close> is empty when \<open>memory_size\<close> is not positive.\<close>

definition init_vm :: "int \<Rightarrow> vm" where
  "init_vm memory_size =
     \<lparr>data_memory = replicate (nat memory_size) 0, code_memory = [], pc = 0\<rparr>"

definition load_program :: "vm \<Rightarrow> byte list \<Rightarrow> vm" where
  "load_program s binary_code = s\<lparr>code_memory := binary_code, pc := 0\<rparr>"

text \<open>
  \<^verbatim>\<open>read_bits\<close>. The slice never raises; \<^verbatim>\<open>1 << length\<close> raises on a negative length,
  after the slice and the conversion, which have no effect on the state.
\<close>

definition read_bits :: "vm \<Rightarrow> int \<Rightarrow> int \<Rightarrow> error + int" where
  "read_bits s start_bit len =
     (let start_byte = start_bit div 8;
          end_byte = (start_bit + len - 1) div 8 + 1;
          bytes_to_read = py_slice (code_memory s) (pc s + start_byte) (pc s + end_byte);
          value = from_bytes_little bytes_to_read;
          bit_offset = start_bit mod 8
      in if len < 0 then Inl ValueError_NegativeShift
         else (let mask = push_bit (nat len) 1 - 1
               in Inr (drop_bit (nat bit_offset) value AND mask)))"

text \<open>
  What an \<^verbatim>\<open>execute_\<close> method returns is a line of text built from the values below;
  the model keeps the values.
  \<^item> \<open>TraceLoadConst address constant\<close>
  \<^item> \<open>TraceReadMem dst_addr src_addr offset effective_addr value\<close>
  \<^item> \<open>TraceWriteMem dst_addr src_addr value\<close>
  \<^item> \<open>TraceGte effective_res_addr operand1 operand2 result\<close>
\<close>

datatype trace =
    TraceLoadConst int int
  | TraceReadMem int int int int int
  | TraceWriteMem int int int
  | TraceGte int int int int

text \<open>
  Each method returns its result (or the exception raised) and the machine as the call
  leaves it. Every statement that can raise stands before the first assignment to a
  field, so an exception leaves the machine as it was.
\<close>

definition execute_load_const :: "vm \<Rightarrow> (error + trace) \<times> vm" where
  "execute_load_const s =
     (case read_bits s 0 7 of Inl e \<Rightarrow> (Inl e, s) | Inr opcode \<Rightarrow>
     (case read_bits s 7 11 of Inl e \<Rightarrow> (Inl e, s) | Inr constant \<Rightarrow>
     (case read_bits s 18 26 of Inl e \<Rightarrow> (Inl e, s) | Inr address \<Rightarrow>
     (case py_setitem (data_memory s) address constant of Inl e \<Rightarrow> (Inl e, s) | Inr m \<Rightarrow>
        (Inr (TraceLoadConst address constant), s\<lparr>data_memory := m, pc := pc s + 6\<rparr>)))))"

definition execute_read_mem :: "vm \<Rightarrow> (error + trace) \<times> vm" where
  "execute_read_mem s =
     (case read_bits s 0 7 of Inl e \<Rightarrow> (Inl e, s) | Inr opcode \<Rightarrow>
     (case read_bits s 7 8 of Inl e \<Rightarrow> (Inl e, s) | Inr offset \<Rightarrow>
     (case read_bits s 15 26 of Inl e \<Rightarrow> (Inl e, s) | Inr src_addr \<Rightarrow>
     (case read_bits s 41 26 of Inl e \<Rightarrow> (Inl e, s) | Inr dst_addr \<Rightarrow>
     (case py_getitem (data_memory s) src_addr of Inl e \<Rightarrow> (Inl e, s) | Inr base \<Rightarrow>
     (let effective_addr = base + offset in
     (case py_getitem (data_memory s) effective_addr of Inl e \<Rightarrow> (Inl e, s) | Inr v \<Rightarrow>
     (case py_setitem (data_memory s) dst_addr v of Inl e \<Rightarrow> (Inl e, s) | Inr m \<Rightarrow>
        (Inr (TraceReadMem dst_addr src_addr offset effective_addr v),
         s\<lparr>data_memory := m, pc := pc s + 9\<rparr>)))))))))"

definition execute_write_mem :: "vm \<Rightarrow> (error + trace) \<times> vm" where
  "execute_write_mem s =
     (case read_bits s 0 7 of Inl e \<Rightarrow> (Inl e, s) | Inr opcode \<Rightarrow>
     (case read_bits s 7 26 of Inl e \<Rightarrow> (Inl e, s) | Inr src_addr \<Rightarrow>
     (case read_bits s 33 26 of Inl e \<Rightarrow> (Inl e, s) | Inr dst_addr \<Rightarrow>
     (case py_getitem (data_memory s) src_addr of Inl e \<Rightarrow> (Inl e, s) | Inr v \<Rightarrow>
     (case py_setitem (data_memory s) dst_addr v of Inl e \<Rightarrow> (Inl e, s) | Inr m \<Rightarrow>
        (Inr (TraceWriteMem dst_addr src_addr v), s\<lparr>data_memory := m, pc := pc s + 8\<rparr>))))))"

definition execute_gte :: "vm \<Rightarrow> (error + trace) \<times> vm" where
  "execute_gte s =
     (case read_bits s 0 7 of Inl e \<Rightarrow> (Inl e, s) | Inr opcode \<Rightarrow>
     (case read_bits s 7 8 of Inl e \<Rightarrow> (Inl e, s) | Inr offset1 \<Rightarrow>
     (case read_bits s 15 26 of Inl e \<Rightarrow> (Inl e, s) | Inr addr1 \<Rightarrow>
     (case read_bits s 41 26 of Inl e \<Rightarrow> (Inl e, s) | Inr addr2 \<Rightarrow>
     (case read_bits s 67 26 of Inl e \<Rightarrow> (Inl e, s) | Inr res_addr \<Rightarrow>
     (case read_bits s 93 8 of Inl e \<Rightarrow> (Inl e, s) | Inr offset2 \<Rightarrow>
     (case py_getitem (data_memory s) addr1 of Inl e \<Rightarrow> (Inl e, s) | Inr base1 \<Rightarrow>
     (let effective_addr1 = base1 + offset1 in
     (case py_getitem (data_memory s) res_addr of Inl e \<Rightarrow> (Inl e, s) | Inr base_res \<Rightarrow>
     (let effective_res_addr = base_res + offset2 in
     (case py_getitem (data_memory s) effective_addr1 of Inl e \<Rightarrow> (Inl e, s) | Inr operand1 \<Rightarrow>
     (case py_getitem (data_memory s) addr2 of Inl e \<Rightarrow> (Inl e, s) | Inr operand2 \<Rightarrow>
     (let result = (if operand1 \<ge> operand2 then 1 else 0) in
     (case py_setitem (data_memory s) effective_res_addr result of Inl e \<Rightarrow> (Inl e, s) | Inr m \<Rightarrow>
        (Inr (TraceGte effective_res_addr operand1 operand2 result),
         s\<lparr>data_memory := m, pc := pc s + 13\<rparr>)))))))))))))))"

text \<open>
  \<^verbatim>\<open>step\<close> returns \<^verbatim>\<open>None\<close> at the end of the program, and the text of the executed
  instruction otherwise.
\<close>

fun returned :: "(error + trace) \<times> vm \<Rightarrow> (error + trace option) \<times> vm" where
  "returned (Inl e, s) = (Inl e, s)"
| "returned (Inr t, s) = (Inr (Some t), s)"

definition step :: "vm \<Rightarrow> (error + trace option) \<times> vm" where
  "step s =
     (if pc s \<ge> int (length (code_memory s)) then (Inr None, s)
      else
        (case read_bits s 0 7 of Inl e \<Rightarrow> (Inl e, s) | Inr opcode \<Rightarrow>
          if opcode = 111 then returned (execute_load_const s)
          else if opcode = 40 then returned (execute_read_mem s)
          else if opcode = 101 then returned (execute_write_mem s)
          else if opcode = 68 then returned (execute_gte s)
          else (Inl (ValueError_UnknownOpcode opcode (pc s)), s)))"

text \<open>
  A step that executes an instruction leaves the program where it is and moves the
  program counter forward; the loop of \<^verbatim>\<open>run\<close> terminates for this reason.
\<close>

lemma step_advances:
  "step s = (Inr (Some t), s') \<Longrightarrow> code_memory s' = code_memory s \<and> pc s < pc s'"
  by (auto simp: step_def execute_load_const_def execute_read_mem_def execute_write_mem_def
        execute_gte_def Let_def split: if_splits sum.splits)

text \<open>
  \<^verbatim>\<open>run\<close>: the loop \<^verbatim>\<open>while self.pc < len(self.code_memory)\<close>, leaving at a step that
  returns \<^verbatim>\<open>None\<close>. It returns the exception that ended it, if any, and the machine as
  it leaves it. The counter \<^verbatim>\<open>step_count\<close> and the lines printed under \<^verbatim>\<open>verbose\<close> have
  no effect on the machine and are left out.
\<close>

function run :: "vm \<Rightarrow> error option \<times> vm" where
  "run s =
     (if pc s < int (length (code_memory s)) then
        (case step s of
           (Inl e, s') \<Rightarrow> (Some e, s')
         | (Inr None, s') \<Rightarrow> (None, s')
         | (Inr (Some result), s') \<Rightarrow> run s')
      else (None, s))"
  by pat_completeness auto
termination
  by (relation "measure (\<lambda>s. nat (int (length (code_memory s)) - pc s))")
     (auto dest: step_advances [OF sym])

text \<open>The equation of \<^verbatim>\<open>run\<close> unfolds for ever as a rewrite rule; it is applied by hand.\<close>

declare run.simps [simp del]

section \<open>Notions of the specification\<close>

text \<open>
  Bit number \<open>k\<close> of a buffer under little-endian byte order: bit \<open>k mod 8\<close> of the
  byte at index \<open>k div 8\<close>.
\<close>

definition buffer_bit :: "byte list \<Rightarrow> nat \<Rightarrow> bool" where
  "buffer_bit buf k = (k div 8 < length buf \<and> bit (buf ! (k div 8)) (k mod 8))"

text \<open>
  Every operand within its declared bit-width (11 bits for a constant, 8 for an offset,
  26 for an address), unsigned.
\<close>

fun in_width :: "instruction \<Rightarrow> bool" where
  "in_width (LoadConst constant address) \<longleftrightarrow>
     0 \<le> constant \<and> constant < 2 ^ 11 \<and> 0 \<le> address \<and> address < 2 ^ 26"
| "in_width (ReadMem offset src_addr dst_addr) \<longleftrightarrow>
     0 \<le> offset \<and> offset < 2 ^ 8 \<and> 0 \<le> src_addr \<and> src_addr < 2 ^ 26
     \<and> 0 \<le> dst_addr \<and> dst_addr < 2 ^ 26"
| "in_width (WriteMem src_addr dst_addr) \<longleftrightarrow>
     0 \<le> src_addr \<and> src_addr < 2 ^ 26 \<and> 0 \<le> dst_addr \<and> dst_addr < 2 ^ 26"
| "in_width (Gte offset1 addr1 addr2 res_addr offset2) \<longleftrightarrow>
     0 \<le> offset1 \<and> offset1 < 2 ^ 8 \<and> 0 \<le> addr1 \<and> addr1 < 2 ^ 26
     \<and> 0 \<le> addr2 \<and> addr2 < 2 ^ 26 \<and> 0 \<le> res_addr \<and> res_addr < 2 ^ 26
     \<and> 0 \<le> offset2 \<and> offset2 < 2 ^ 8"

text \<open>
  A validly constructed instruction: the constructor of its class, called with its
  operands, returns it.
\<close>

fun constructed :: "instruction \<Rightarrow> bool" where
  "constructed (LoadConst constant address) \<longleftrightarrow>
     LoadConstInstruction constant address = Inr (LoadConst constant address)"
| "constructed (ReadMem offset src_addr dst_addr) \<longleftrightarrow>
     ReadMemInstruction offset src_addr dst_addr = Inr (ReadMem offset src_addr dst_addr)"
| "constructed (WriteMem src_addr dst_addr) \<longleftrightarrow>
     WriteMemInstruction src_addr dst_addr = Inr (WriteMem src_addr dst_addr)"
| "constructed (Gte offset1 addr1 addr2 res_addr offset2) \<longleftrightarrow>
     GTEInstruction offset1 addr1 addr2 res_addr offset2 = Inr (Gte offset1 addr1 addr2 res_addr offset2)"

text \<open>
  \<open>executed s s'\<close>: the machine \<open>s'\<close> is reached from \<open>s\<close> by a sequence (possibly
  empty) of steps, each of which executes an instruction without error.
\<close>

inductive executed :: "vm \<Rightarrow> vm \<Rightarrow> bool" where
  executed_none: "executed s s"
| executed_more: "executed s s1 \<Longrightarrow> step s1 = (Inr (Some t), s2) \<Longrightarrow> executed s s2"

text \<open>The fixed byte length of the variant with a given opcode (the layout table).\<close>

definition fixed_length :: "int \<Rightarrow> int" where
  "fixed_length opcode =
     (if opcode = 111 then 6 else if opcode = 68 then 13 else if opcode = 101 then 8
      else if opcode = 40 then 9 else 0)"

section \<open>Sample machines\<close>

text \<open>
  \<open>gte_code\<close> is the encoding of \<^verbatim>\<open>GTE 1 0 1 2 0\<close>. \<open>gte_machine\<close> holds it as its whole
  program, over a memory of four cells; \<open>gte_done\<close> is that machine after the
  instruction. \<open>bad_machine\<close> holds the same instruction followed by a byte that is no
  opcode; \<open>bad_stopped\<close> is that machine after the instruction.
\<close>

definition gte_code :: "byte list" where
  "gte_code = [196, 0, 0, 0, 0, 2, 0, 0, 16, 0, 0, 0, 0]"

definition gte_machine :: vm where
  "gte_machine = \<lparr>data_memory = [1, 3, 3, 7], code_memory = gte_code, pc = 0\<rparr>"

definition gte_done :: vm where
  "gte_done = \<lparr>data_memory = [1, 3, 3, 1], code_memory = gte_code, pc = 13\<rparr>"

definition bad_machine :: vm where
  "bad_machine = \<lparr>data_memory = [1, 3, 3, 7], code_memory = gte_code @ [0], pc = 0\<rparr>"

definition bad_stopped :: vm where
  "bad_stopped = \<lparr>data_memory = [1, 3, 3, 1], code_memory = gte_code @ [0], pc = 13\<rparr>"

text \<open>
  \<open>load_code\<close>, \<open>write_code\<close> and \<open>read_code\<close> are the encodings of \<^verbatim>\<open>LOAD_CONST 9 2\<close>,
  \<^verbatim>\<open>WRITE_MEM 3 0\<close> and \<^verbatim>\<open>READ_MEM 1 0 3\<close>; each of the machines below holds one of them
  as its whole program, over a memory of four cells, before and after the instruction.
\<close>

definition load_code :: "byte list" where
  "load_code = [239, 4, 8, 0, 0, 0]"

definition write_code :: "byte list" where
  "write_code = [229, 1, 0, 0, 0, 0, 0, 0]"

definition read_code :: "byte list" where
  "read_code = [168, 0, 0, 0, 0, 6, 0, 0, 0]"

definition load_machine :: vm where
  "load_machine = \<lparr>data_memory = [1, 3, 3, 7], code_memory = load_code, pc = 0\<rparr>"

definition load_done :: vm where
  "load_done = \<lparr>data_memory = [1, 3, 9, 7], code_memory = load_code, pc = 6\<rparr>"

definition write_machine :: vm where
  "write_machine = \<lparr>data_memory = [1, 3, 3, 7], code_memory = write_code, pc = 0\<rparr>"

definition write_done :: vm where
  "write_done = \<lparr>data_memory = [7, 3, 3, 7], code_memory = write_code, pc = 8\<rparr>"

definition read_machine :: vm where
  "read_machine = \<lparr>data_memory = [1, 3, 5, 7], code_memory = read_code, pc = 0\<rparr>"

definition read_done :: vm where
  "read_done = \<lparr>data_memory = [1, 3, 5, 5], code_memory = read_code, pc = 9\<rparr>"

text \<open>
  \<open>scenario_b\<close> is the binary of the program \<^verbatim>\<open>LOAD_CONST 10 0\<close>, \<^verbatim>\<open>LOAD_CONST 5 1\<close>,
  \<^verbatim>\<open>GTE 0 0 1 2 0\<close>.
\<close>

definition scenario_b :: "byte list" where
  "scenario_b = [111, 5, 0, 0, 0, 0, 239, 2, 4, 0, 0, 0, 68, 0, 0, 0, 0, 2, 0, 0, 16, 0, 0, 0, 0]"

section \<open>Bits of a byte buffer\<close>

text \<open>
  Bit \<open>k\<close> of the little-endian integer of a buffer is bit \<open>k mod 8\<close> of byte
  \<open>k div 8\<close>; every later fact about \<^verbatim>\<open>read_bits\<close> and \<^verbatim>\<open>to_bytes\<close> rests on it.
\<close>


lemma from_bytes_little_nonneg: "0 \<le> from_bytes_little bs"
  by (induction bs) auto

lemma bit_from_bytes_little:
  "bit (from_bytes_little bs) k \<longleftrightarrow> k div 8 < length bs \<and> bit (bs ! (k div 8)) (k mod 8)"
proof (induction bs arbitrary: k)
  case Nil
  then show ?case by simp
next
  case (Cons b bs)
  let ?F = "from_bytes_little bs"
  have eq: "from_bytes_little (b # bs) = uint b + push_bit 8 ?F"
    by (simp add: push_bit_eq_mult)
  have disj: "\<not> bit (uint b) n \<or> \<not> bit (push_bit 8 ?F) n" for n
    by (auto simp: bit_simps dest: bit_imp_le_length)
  have split: "bit (from_bytes_little (b # bs)) k \<longleftrightarrow> bit (uint b) k \<or> bit (push_bit 8 ?F) k"
    unfolding eq by (rule bit_disjunctive_add_iff) (rule disj)
  show ?case
  proof (cases "k < 8")
    case True
    then show ?thesis unfolding split by (simp add: bit_simps)
  next
    case False
    then have k: "k div 8 = Suc ((k - 8) div 8)" "k mod 8 = (k - 8) mod 8"
      by (simp_all add: le_div_geq le_mod_geq)
    have "\<not> bit (uint b) k"
      using False by (auto simp: bit_simps dest: bit_imp_le_length)
    then show ?thesis unfolding split using False Cons.IH [of "k - 8"]
      by (simp add: bit_simps k)
  qed
qed

lemma length_bytes_little: "length (bytes_little n v) = n"
  by (induction n arbitrary: v) auto

lemma nth_bytes_little:
  "i < n \<Longrightarrow> bytes_little n v ! i = word_of_int (drop_bit (8 * i) v)"
proof (induction n arbitrary: v i)
  case 0
  then show ?case by simp
next
  case (Suc n)
  show ?case
  proof (cases i)
    case 0
    have m: "(255 :: int) = mask 8"
      by (simp add: mask_eq_exp_minus_1)
    have "(word_of_int (v AND 255) :: byte) = word_of_int v"
      unfolding m by (rule bit_word_eqI) (auto simp: bit_simps)
    then show ?thesis using 0 by simp
  next
    case (Suc j)
    then show ?thesis using Suc.prems Suc.IH [of j "drop_bit 8 v"]
      by (simp add: drop_bit_drop_bit add.commute)
  qed
qed

lemma from_bytes_bytes_little: "from_bytes_little (bytes_little n v) = take_bit (8 * n) v"
  apply (rule bit_eqI)
  apply (auto simp: bit_from_bytes_little length_bytes_little nth_bytes_little bit_simps)
  done


lemma bit_bounded: "0 \<le> x \<Longrightarrow> x < 2 ^ w \<Longrightarrow> bit (x::int) n \<Longrightarrow> n < w"
  by (metis bit_take_bit_iff take_bit_int_eq_self)


text \<open>
  \<^verbatim>\<open>read_bits\<close> in closed form: the \<open>len\<close> bits of the buffer's integer that start at
  bit \<open>8 * pc + start_bit\<close>, whenever the first byte read is not before the buffer.
\<close>


lemma py_slice_nonneg:
  "0 \<le> a \<Longrightarrow> 0 \<le> b \<Longrightarrow> py_slice xs a b = take (nat (b - a)) (drop (nat a) xs)"
  by (auto simp: py_slice_def adjust_index_def Let_def)

lemma bit_from_bytes_take_drop:
  "bit (from_bytes_little (take m (drop a bs))) k \<longleftrightarrow>
     k < 8 * m \<and> bit (from_bytes_little bs) (8 * a + k)"
proof -
  have d: "(8 * a + k) div 8 = a + k div 8" "(8 * a + k) mod 8 = k mod 8"
    by simp_all
  have "k div 8 < m \<longleftrightarrow> k < 8 * m"
    by (auto simp: less_mult_imp_div_less div_less_iff_less_mult mult.commute)
  then show ?thesis
    by (auto simp: bit_from_bytes_little d)
qed

lemma read_bits_eq:
  assumes len: "0 \<le> len" and lo: "0 \<le> pc s + start_bit div 8"
  shows "read_bits s start_bit len =
           Inr (take_bit (nat len)
                 (drop_bit (nat (8 * pc s + start_bit)) (from_bytes_little (code_memory s))))"
proof -
  define q1 r1 q2 r2 where "q1 = start_bit div 8" and "r1 = start_bit mod 8"
    and "q2 = (start_bit + len - 1) div 8" and "r2 = (start_bit + len - 1) mod 8"
  define a m off where "a = nat (pc s + q1)" and "m = nat (q2 + 1 - q1)" and "off = nat r1"
  have d: "start_bit = 8 * q1 + r1" "start_bit + len - 1 = 8 * q2 + r2"
    and r: "0 \<le> r1" "r1 < 8" "0 \<le> r2" "r2 < 8"
    by (simp_all add: q1_def r1_def q2_def r2_def)
  have lo': "0 \<le> pc s + q1"
    using lo by (simp add: q1_def)
  have width: "r1 + len \<le> 8 * (q2 + 1 - q1)"
    using d r by simp
  then have m_nonneg: "0 \<le> q2 + 1 - q1"
    using len r by presburger
  then have hi: "0 \<le> pc s + (q2 + 1)"
    using lo' by presburger
  have ints: "int a = pc s + q1" "int m = q2 + 1 - q1" "int off = r1" "int (nat len) = len"
    using lo' m_nonneg r len by (simp_all add: a_def m_def off_def)
  have sl: "py_slice (code_memory s) (pc s + q1) (pc s + (q2 + 1)) = take m (drop a (code_memory s))"
    using lo' hi by (simp add: py_slice_nonneg a_def m_def algebra_simps)
  have "int (off + nat len) \<le> int (8 * m)"
    using width len by (simp add: ints)
  then have span: "off + nat len \<le> 8 * m"
    by presburger
  have "8 * pc s + start_bit = 8 * (pc s + q1) + r1"
    using d by simp
  then have "8 * pc s + start_bit = int (8 * a + off)"
    by (simp add: ints)
  then have pos: "nat (8 * pc s + start_bit) = 8 * a + off"
    by (simp only: nat_int)
  have "drop_bit off (from_bytes_little (take m (drop a (code_memory s)))) AND mask (nat len)
          = take_bit (nat len) (drop_bit (8 * a + off) (from_bytes_little (code_memory s)))"
    using span
    by (intro bit_eqI) (auto simp: bit_simps bit_from_bytes_take_drop take_bit_eq_mask [symmetric] algebra_simps)
  then show ?thesis
    using len sl
    by (simp add: read_bits_def Let_def mask_eq_exp_minus_1 [symmetric] pos off_def q1_def q2_def r1_def)
qed


text \<open>
  \<^verbatim>\<open>read_bits\<close> on a buffer that holds an encoding \<open>enc\<close> at the program counter, with
  any bytes before and after it.
\<close>


lemma read_bits_encoded:
  assumes buf: "code_memory s = pre @ enc @ post" and at: "pc s = int (length pre)"
    and start: "0 \<le> start_bit" and len: "0 \<le> len"
    and inside: "start_bit + len \<le> 8 * int (length enc)"
  shows "read_bits s start_bit len =
           Inr (take_bit (nat len) (drop_bit (nat start_bit) (from_bytes_little enc)))"
proof -
  have lo: "0 \<le> pc s + start_bit div 8"
    using at start by (simp add: pos_imp_zdiv_nonneg_iff)
  have pos: "nat (8 * pc s + start_bit) = 8 * length pre + nat start_bit"
    using at start by (simp add: nat_add_distrib nat_mult_distrib)
  have "bit (from_bytes_little (pre @ enc @ post)) (8 * length pre + nat start_bit + k)
          = bit (from_bytes_little enc) (nat start_bit + k)" if "k < nat len" for k
  proof -
    have "nat start_bit + k < 8 * length enc"
      using that inside start len by linarith
    then have "(nat start_bit + k) div 8 < length enc"
      by (simp add: less_mult_imp_div_less mult.commute)
    moreover have "(8 * length pre + nat start_bit + k) div 8 = length pre + (nat start_bit + k) div 8"
      "(8 * length pre + nat start_bit + k) mod 8 = (nat start_bit + k) mod 8"
      by (simp_all add: add.assoc)
    ultimately show ?thesis
      by (simp add: bit_from_bytes_little nth_append)
  qed
  then have "take_bit (nat len) (drop_bit (8 * length pre + nat start_bit) (from_bytes_little (pre @ enc @ post)))
               = take_bit (nat len) (drop_bit (nat start_bit) (from_bytes_little enc))"
    by (intro bit_eqI) (auto simp: bit_simps)
  then show ?thesis
    using read_bits_eq [OF len lo] by (simp add: pos buf)
qed

lemma to_bytes_Inr:
  assumes "to_bytes i = Inr enc"
  shows "from_bytes_little enc = packed_value i" and "length enc = byte_length i"
proof -
  from assms have v: "0 \<le> packed_value i" "packed_value i < 2 ^ (8 * byte_length i)"
    and enc: "enc = bytes_little (byte_length i) (packed_value i)"
    by (auto simp: to_bytes_def int_to_bytes_def split: if_splits)
  show "from_bytes_little enc = packed_value i"
    using v by (simp add: enc from_bytes_bytes_little take_bit_int_eq_self)
  show "length enc = byte_length i"
    by (simp add: enc length_bytes_little)
qed

lemma read_bits_to_bytes:
  assumes "to_bytes i = Inr enc" and "code_memory s = pre @ enc @ post" and "pc s = int (length pre)"
    and "0 \<le> start_bit" and "0 \<le> len" and "start_bit + len \<le> 8 * int (byte_length i)"
  shows "read_bits s start_bit len =
           Inr (take_bit (nat len) (drop_bit (nat start_bit) (packed_value i)))"
  using read_bits_encoded [OF assms(2-5)] assms(6) to_bytes_Inr [OF assms(1)] by simp

section \<open>The fields of a packed instruction\<close>

lemma constructed_in_width: "constructed i \<longleftrightarrow> in_width i"
  by (cases i)
    (auto simp: LoadConstInstruction_def ReadMemInstruction_def WriteMemInstruction_def
      GTEInstruction_def)

lemma bit_opcode: "bit (opcode_of i) n \<Longrightarrow> n < 7"
  by (cases i) (auto dest: bit_bounded [of _ 7, rotated 2])

lemma fields_LoadConst:
  assumes "in_width (LoadConst c a)"
  shows "take_bit 7 (packed_value (LoadConst c a)) = 111"
    and "take_bit 11 (drop_bit 7 (packed_value (LoadConst c a))) = c"
    and "take_bit 26 (drop_bit 18 (packed_value (LoadConst c a))) = a"
    and "take_bit 44 (packed_value (LoadConst c a)) = packed_value (LoadConst c a)"
proof -
  from assms have r: "0 \<le> c" "c < 2 ^ 11" "0 \<le> a" "a < 2 ^ 26"
    by simp_all
  note b = bit_bounded [OF r(1,2)] bit_bounded [OF r(3,4)] bit_opcode [of "LoadConst c a", simplified]
  show "take_bit 7 (packed_value (LoadConst c a)) = 111"
    by (rule bit_eqI) (auto simp: bit_simps dest: b)
  show "take_bit 11 (drop_bit 7 (packed_value (LoadConst c a))) = c"
    by (rule bit_eqI) (auto simp: bit_simps dest: b)
  show "take_bit 26 (drop_bit 18 (packed_value (LoadConst c a))) = a"
    by (rule bit_eqI) (auto simp: bit_simps dest: b)
  show "take_bit 44 (packed_value (LoadConst c a)) = packed_value (LoadConst c a)"
    by (rule bit_eqI) (auto simp: bit_simps dest: b)
qed

lemma fields_ReadMem:
  assumes "in_width (ReadMem off src dst)"
  shows "take_bit 7 (packed_value (ReadMem off src dst)) = 40"
    and "take_bit 8 (drop_bit 7 (packed_value (ReadMem off src dst))) = off"
    and "take_bit 26 (drop_bit 15 (packed_value (ReadMem off src dst))) = src"
    and "take_bit 26 (drop_bit 41 (packed_value (ReadMem off src dst))) = dst"
    and "take_bit 67 (packed_value (ReadMem off src dst)) = packed_value (ReadMem off src dst)"
proof -
  from assms have r: "0 \<le> off" "off < 2 ^ 8" "0 \<le> src" "src < 2 ^ 26" "0 \<le> dst" "dst < 2 ^ 26"
    by simp_all
  note b = bit_bounded [OF r(1,2)] bit_bounded [OF r(3,4)] bit_bounded [OF r(5,6)]
    bit_opcode [of "ReadMem off src dst", simplified]
  show "take_bit 7 (packed_value (ReadMem off src dst)) = 40"
    by (rule bit_eqI) (auto simp: bit_simps dest: b)
  show "take_bit 8 (drop_bit 7 (packed_value (ReadMem off src dst))) = off"
    by (rule bit_eqI) (auto simp: bit_simps dest: b)
  show "take_bit 26 (drop_bit 15 (packed_value (ReadMem off src dst))) = src"
    by (rule bit_eqI) (auto simp: bit_simps dest: b)
  show "take_bit 26 (drop_bit 41 (packed_value (ReadMem off src dst))) = dst"
    by (rule bit_eqI) (auto simp: bit_simps dest: b)
  show "take_bit 67 (packed_value (ReadMem off src dst)) = packed_value (ReadMem off src dst)"
    by (rule bit_eqI) (auto simp: bit_simps dest: b)
qed

lemma fields_WriteMem:
  assumes "in_width (WriteMem src dst)"
  shows "take_bit 7 (packed_value (WriteMem src dst)) = 101"
    and "take_bit 26 (drop_bit 7 (packed_value (WriteMem src dst))) = src"
    and "take_bit 26 (drop_bit 33 (packed_value (WriteMem src dst))) = dst"
    and "take_bit 59 (packed_value (WriteMem src dst)) = packed_value (WriteMem src dst)"
proof -
  from assms have r: "0 \<le> src" "src < 2 ^ 26" "0 \<le> dst" "dst < 2 ^ 26"
    by simp_all
  note b = bit_bounded [OF r(1,2)] bit_bounded [OF r(3,4)] bit_opcode [of "WriteMem src dst", simplified]
  show "take_bit 7 (packed_value (WriteMem src dst)) = 101"
    by (rule bit_eqI) (auto simp: bit_simps dest: b)
  show "take_bit 26 (drop_bit 7 (packed_value (WriteMem src dst))) = src"
    by (rule bit_eqI) (auto simp: bit_simps dest: b)
  show "take_bit 26 (drop_bit 33 (packed_value (WriteMem src dst))) = dst"
    by (rule bit_eqI) (auto simp: bit_simps dest: b)
  show "take_bit 59 (packed_value (WriteMem src dst)) = packed_value (WriteMem src dst)"
    by (rule bit_eqI) (auto simp: bit_simps dest: b)
qed

lemma fields_Gte:
  assumes "in_width (Gte o1 a1 a2 r o2)"
  shows "take_bit 7 (packed_value (Gte o1 a1 a2 r o2)) = 68"
    and "take_bit 8 (drop_bit 7 (packed_value (Gte o1 a1 a2 r o2))) = o1"
    and "take_bit 26 (drop_bit 15 (packed_value (Gte o1 a1 a2 r o2))) = a1"
    and "take_bit 26 (drop_bit 41 (packed_value (Gte o1 a1 a2 r o2))) = a2"
    and "take_bit 26 (drop_bit 67 (packed_value (Gte o1 a1 a2 r o2))) = r"
    and "take_bit 8 (drop_bit 93 (packed_value (Gte o1 a1 a2 r o2))) = o2"
    and "take_bit 101 (packed_value (Gte o1 a1 a2 r o2)) = packed_value (Gte o1 a1 a2 r o2)"
proof -
  from assms have r: "0 \<le> o1" "o1 < 2 ^ 8" "0 \<le> a1" "a1 < 2 ^ 26" "0 \<le> a2" "a2 < 2 ^ 26"
    "0 \<le> r" "r < 2 ^ 26" "0 \<le> o2" "o2 < 2 ^ 8"
    by simp_all
  note b = bit_bounded [OF r(1,2)] bit_bounded [OF r(3,4)] bit_bounded [OF r(5,6)]
    bit_bounded [OF r(7,8)] bit_bounded [OF r(9,10)] bit_opcode [of "Gte o1 a1 a2 r o2", simplified]
  show "take_bit 7 (packed_value (Gte o1 a1 a2 r o2)) = 68"
    by (rule bit_eqI) (auto simp: bit_simps dest: b)
  show "take_bit 8 (drop_bit 7 (packed_value (Gte o1 a1 a2 r o2))) = o1"
    by (rule bit_eqI) (auto simp: bit_simps dest: b)
  show "take_bit 26 (drop_bit 15 (packed_value (Gte o1 a1 a2 r o2))) = a1"
    by (rule bit_eqI) (auto simp: bit_simps dest: b)
  show "take_bit 26 (drop_bit 41 (packed_value (Gte o1 a1 a2 r o2))) = a2"
    by (rule bit_eqI) (auto simp: bit_simps dest: b)
  show "take_bit 26 (drop_bit 67 (packed_value (Gte o1 a1 a2 r o2))) = r"
    by (rule bit_eqI) (auto simp: bit_simps dest: b)
  show "take_bit 8 (drop_bit 93 (packed_value (Gte o1 a1 a2 r o2))) = o2"
    by (rule bit_eqI) (auto simp: bit_simps dest: b)
  show "take_bit 101 (packed_value (Gte o1 a1 a2 r o2)) = packed_value (Gte o1 a1 a2 r o2)"
    by (rule bit_eqI) (auto simp: bit_simps dest: b)
qed

lemma packed_value_fits:
  assumes "in_width i"
  shows "0 \<le> packed_value i" and "packed_value i < 2 ^ (8 * byte_length i)"
proof -
  show "0 \<le> packed_value i"
    using assms by (cases i) simp_all
  show "packed_value i < 2 ^ (8 * byte_length i)"
  proof (cases i)
    case (LoadConst c a)
    have "take_bit 44 (packed_value i) < 2 ^ 44"
      by (rule take_bit_int_less_exp)
    then show ?thesis
      using assms fields_LoadConst(4) [of c a] unfolding LoadConst by simp
  next
    case (ReadMem off src dst)
    have "take_bit 67 (packed_value i) < 2 ^ 67"
      by (rule take_bit_int_less_exp)
    then show ?thesis
      using assms fields_ReadMem(5) [of off src dst] unfolding ReadMem by simp
  next
    case (WriteMem src dst)
    have "take_bit 59 (packed_value i) < 2 ^ 59"
      by (rule take_bit_int_less_exp)
    then show ?thesis
      using assms fields_WriteMem(4) [of src dst] unfolding WriteMem by simp
  next
    case (Gte o1 a1 a2 r o2)
    have "take_bit 101 (packed_value i) < 2 ^ 101"
      by (rule take_bit_int_less_exp)
    then show ?thesis
      using assms fields_Gte(7) [of o1 a1 a2 r o2] unfolding Gte by simp
  qed
qed

section \<open>Steps of the interpreter\<close>

text \<open>List accesses, the range of a decoded field, and what a successful call returns.\<close>

lemma py_index_Inr: "py_index n i = Inr k \<Longrightarrow> k < n \<and> int k = (if i < 0 then i + int n else i)"
  by (auto simp: py_index_def Let_def split: if_splits)

lemma py_index_inside: "0 \<le> i \<Longrightarrow> i < int n \<Longrightarrow> py_index n i = Inr (nat i)"
  by (simp add: py_index_def)

lemma py_getitem_Inr:
  "py_getitem xs i = Inr v \<Longrightarrow> \<exists>k. py_index (length xs) i = Inr k \<and> v = xs ! k"
  by (auto simp: py_getitem_def split: sum.splits)

lemma py_setitem_Inr:
  "py_setitem xs i v = Inr ys \<Longrightarrow> \<exists>k. py_index (length xs) i = Inr k \<and> ys = xs[k := v]"
  by (auto simp: py_setitem_def split: sum.splits)

lemma read_bits_range: "read_bits s start_bit len = Inr v \<Longrightarrow> 0 \<le> v \<and> v < 2 ^ nat len"
  by (auto simp: read_bits_def Let_def mask_eq_exp_minus_1 [symmetric] take_bit_eq_mask [symmetric]
      split: if_splits)

lemma read_bits_total: "0 \<le> len \<Longrightarrow> \<exists>v. read_bits s start_bit len = Inr v"
  by (simp add: read_bits_def Let_def)

lemma execute_load_const_Inr:
  assumes "execute_load_const s = (Inr t, s')"
  obtains c a m where "read_bits s 7 11 = Inr c"
    and "read_bits s 18 26 = Inr a"
    and "py_setitem (data_memory s) a c = Inr m"
    and "t = TraceLoadConst a c"
    and "s' = s\<lparr>data_memory := m, pc := pc s + 6\<rparr>"
  using assms by (auto simp: execute_load_const_def split: sum.splits)

lemma execute_read_mem_Inr:
  assumes "execute_read_mem s = (Inr t, s')"
  obtains offset src_addr dst_addr base v m where "read_bits s 7 8 = Inr offset"
    and "read_bits s 15 26 = Inr src_addr" and "read_bits s 41 26 = Inr dst_addr"
    and "py_getitem (data_memory s) src_addr = Inr base"
    and "py_getitem (data_memory s) (base + offset) = Inr v"
    and "py_setitem (data_memory s) dst_addr v = Inr m"
    and "t = TraceReadMem dst_addr src_addr offset (base + offset) v"
    and "s' = s\<lparr>data_memory := m, pc := pc s + 9\<rparr>"
  using assms by (auto simp: execute_read_mem_def Let_def split: sum.splits)

lemma execute_write_mem_Inr:
  assumes "execute_write_mem s = (Inr t, s')"
  obtains src_addr dst_addr v m where "read_bits s 7 26 = Inr src_addr"
    and "read_bits s 33 26 = Inr dst_addr"
    and "py_getitem (data_memory s) src_addr = Inr v"
    and "py_setitem (data_memory s) dst_addr v = Inr m"
    and "t = TraceWriteMem dst_addr src_addr v"
    and "s' = s\<lparr>data_memory := m, pc := pc s + 8\<rparr>"
  using assms by (auto simp: execute_write_mem_def split: sum.splits)

lemma execute_gte_Inr:
  assumes "execute_gte s = (Inr t, s')"
  obtains offset1 addr1 addr2 res_addr offset2 base1 base_res operand1 operand2 m
  where "read_bits s 7 8 = Inr offset1" and "read_bits s 15 26 = Inr addr1"
    and "read_bits s 41 26 = Inr addr2" and "read_bits s 67 26 = Inr res_addr"
    and "read_bits s 93 8 = Inr offset2"
    and "py_getitem (data_memory s) addr1 = Inr base1"
    and "py_getitem (data_memory s) res_addr = Inr base_res"
    and "py_getitem (data_memory s) (base1 + offset1) = Inr operand1"
    and "py_getitem (data_memory s) addr2 = Inr operand2"
    and "py_setitem (data_memory s) (base_res + offset2) (if operand1 \<ge> operand2 then 1 else 0) = Inr m"
    and "t = TraceGte (base_res + offset2) operand1 operand2 (if operand1 \<ge> operand2 then 1 else 0)"
    and "s' = s\<lparr>data_memory := m, pc := pc s + 13\<rparr>"
  using assms by (auto simp: execute_gte_def Let_def split: sum.splits)

lemma step_Some:
  assumes "step s = (Inr (Some t), s')"
  obtains opcode where "pc s < int (length (code_memory s))" and "read_bits s 0 7 = Inr opcode"
    and "opcode = 111 \<and> execute_load_const s = (Inr t, s')
         \<or> opcode = 40 \<and> execute_read_mem s = (Inr t, s')
         \<or> opcode = 101 \<and> execute_write_mem s = (Inr t, s')
         \<or> opcode = 68 \<and> execute_gte s = (Inr t, s')"
proof -
  from assms have run: "pc s < int (length (code_memory s))"
    by (auto simp: step_def split: if_splits)
  obtain opcode where op: "read_bits s 0 7 = Inr opcode"
    using read_bits_total [of 7 s 0] by auto
  have ret: "returned r = (Inr (Some t), s') \<longleftrightarrow> r = (Inr t, s')" for r
    by (cases r rule: returned.cases) auto
  from assms run op
  have "opcode = 111 \<and> execute_load_const s = (Inr t, s')
         \<or> opcode = 40 \<and> execute_read_mem s = (Inr t, s')
         \<or> opcode = 101 \<and> execute_write_mem s = (Inr t, s')
         \<or> opcode = 68 \<and> execute_gte s = (Inr t, s')"
    by (auto simp: step_def ret split: if_splits)
  with run op show thesis by (rule that)
qed

lemma run_executed_step:
  assumes "step s = (Inr (Some t), s')"
  shows "run s = run s'"
proof -
  from assms have "pc s < int (length (code_memory s))"
    by (elim step_Some)
  then show ?thesis
    using assms by (subst run.simps) simp
qed

lemma run_executed: "executed s0 s \<Longrightarrow> run s0 = run s"
  by (induction rule: executed.induct) (simp_all add: run_executed_step)

lemma executed_pc: "executed s s' \<Longrightarrow> pc s \<le> pc s' \<and> code_memory s' = code_memory s"
proof (induction rule: executed.induct)
  case (executed_none s)
  show ?case by simp
next
  case (executed_more s s1 t s2)
  with step_advances [of s1 t s2] show ?case by simp
qed

lemma execute_load_const_Inl: "fst (execute_load_const s) = Inl e \<longrightarrow> snd (execute_load_const s) = s"
  by (simp add: execute_load_const_def split: sum.split)

lemma execute_read_mem_Inl: "fst (execute_read_mem s) = Inl e \<longrightarrow> snd (execute_read_mem s) = s"
  by (simp add: execute_read_mem_def Let_def split: sum.split)

lemma execute_write_mem_Inl: "fst (execute_write_mem s) = Inl e \<longrightarrow> snd (execute_write_mem s) = s"
  by (simp add: execute_write_mem_def split: sum.split)

lemma execute_gte_Inl: "fst (execute_gte s) = Inl e \<longrightarrow> snd (execute_gte s) = s"
  by (simp add: execute_gte_def Let_def split: sum.split)

lemma returned_Inl: "returned r = (Inl e, s') \<longleftrightarrow> r = (Inl e, s')"
  by (cases r rule: returned.cases) auto

lemma returned_None: "returned r \<noteq> (Inr None, s')"
  by (cases r rule: returned.cases) auto

lemma step_Inl:
  assumes "step s = (Inl e, s')"
  shows "s' = s"
proof -
  obtain opcode where op: "read_bits s 0 7 = Inr opcode"
    using read_bits_total [of 7 s 0] by auto
  from assms op show ?thesis
    using execute_load_const_Inl [of s e] execute_read_mem_Inl [of s e]
      execute_write_mem_Inl [of s e] execute_gte_Inl [of s e]
    by (auto simp: step_def returned_Inl split: if_splits)
qed

lemma step_None: "step s = (Inr None, s') \<longleftrightarrow> s' = s \<and> int (length (code_memory s)) \<le> pc s"
proof -
  obtain opcode where op: "read_bits s 0 7 = Inr opcode"
    using read_bits_total [of 7 s 0] by auto
  then show ?thesis
    by (auto simp: step_def returned_None)
qed

lemma step_length:
  assumes "step s = (Inr (Some t), s')"
  shows "\<exists>opcode. read_bits s 0 7 = Inr opcode \<and> opcode \<in> {111, 40, 101, 68}
           \<and> pc s' = pc s + fixed_length opcode"
proof -
  from assms obtain opcode where op: "read_bits s 0 7 = Inr opcode"
    and ex: "opcode = 111 \<and> execute_load_const s = (Inr t, s')
         \<or> opcode = 40 \<and> execute_read_mem s = (Inr t, s')
         \<or> opcode = 101 \<and> execute_write_mem s = (Inr t, s')
         \<or> opcode = 68 \<and> execute_gte s = (Inr t, s')"
    by (rule step_Some)
  from ex have "opcode \<in> {111, 40, 101, 68} \<and> pc s' = pc s + fixed_length opcode"
  proof (elim disjE conjE)
    assume "opcode = 111" "execute_load_const s = (Inr t, s')"
    then show ?thesis
      by (elim execute_load_const_Inr) (simp add: fixed_length_def)
  next
    assume "opcode = 40" "execute_read_mem s = (Inr t, s')"
    then show ?thesis
      by (elim execute_read_mem_Inr) (simp add: fixed_length_def)
  next
    assume "opcode = 101" "execute_write_mem s = (Inr t, s')"
    then show ?thesis
      by (elim execute_write_mem_Inr) (simp add: fixed_length_def)
  next
    assume "opcode = 68" "execute_gte s = (Inr t, s')"
    then show ?thesis
      by (elim execute_gte_Inr) (simp add: fixed_length_def)
  qed
  with op show ?thesis by blast
qed

lemma run_None: "run s = (None, s') \<Longrightarrow> int (length (code_memory s')) \<le> pc s'"
proof (induction s rule: run.induct)
  case (1 s)
  show ?case
  proof (cases "pc s < int (length (code_memory s))")
    case False
    with "1.prems" show ?thesis
      by (simp add: run.simps [of s])
  next
    case True
    obtain r s1 where st: "step s = (r, s1)"
      by (cases "step s")
    show ?thesis
    proof (cases r)
      case (Inl e)
      with "1.prems" True st show ?thesis
        by (simp add: run.simps [of s])
    next
      case (Inr b)
      show ?thesis
      proof (cases b)
        case None
        with Inr st True show ?thesis
          by (simp add: step_None)
      next
        case (Some t)
        with Inr st True "1.prems" have "run s1 = (None, s')"
          by (simp add: run.simps [of s])
        with "1.IH" [OF True st [symmetric] Inr Some] show ?thesis .
      qed
    qed
  qed
qed

lemma run_code: "run s = (r, s') \<Longrightarrow> code_memory s' = code_memory s"
proof (induction s rule: run.induct)
  case (1 s)
  show ?case
  proof (cases "pc s < int (length (code_memory s))")
    case False
    with "1.prems" show ?thesis
      by (simp add: run.simps [of s])
  next
    case True
    obtain q s1 where st: "step s = (q, s1)"
      by (cases "step s")
    show ?thesis
    proof (cases q)
      case (Inl e)
      with "1.prems" True st step_Inl [of s e s1] show ?thesis
        by (auto simp: run.simps [of s])
    next
      case (Inr b)
      show ?thesis
      proof (cases b)
        case None
        with Inr st True show ?thesis
          by (simp add: step_None)
      next
        case (Some t)
        with Inr st True "1.prems" have "run s1 = (r, s')"
          by (simp add: run.simps [of s])
        with "1.IH" [OF True st [symmetric] Inr Some] step_advances [of s t s1] st Inr Some
        show ?thesis by simp
      qed
    qed
  qed
qed

lemma run_continues:
  assumes "pc s < int (length (code_memory s))"
  shows "(\<exists>e. step s = (Inl e, s) \<and> run s = (Some e, s))
         \<or> (\<exists>t s1. step s = (Inr (Some t), s1) \<and> run s = run s1)"
proof -
  obtain q s1 where st: "step s = (q, s1)"
    by (cases "step s")
  show ?thesis
  proof (cases q)
    case (Inl e)
    with st step_Inl [of s e s1] assms show ?thesis
      by (auto simp: run.simps [of s])
  next
    case (Inr b)
    show ?thesis
    proof (cases b)
      case None
      with Inr st assms show ?thesis
        by (simp add: step_None)
    next
      case (Some t)
      with Inr st run_executed_step [of s t s1] show ?thesis
        by simp
    qed
  qed
qed

lemma py_getitem_mem: "py_getitem xs i = Inr v \<Longrightarrow> v \<in> set xs"
  by (auto dest!: py_getitem_Inr py_index_Inr)

lemma py_setitem_set: "py_setitem xs i v = Inr ys \<Longrightarrow> set ys \<subseteq> insert v (set xs)"
  using set_update_subset_insert [of xs _ v] by (auto dest!: py_setitem_Inr)

lemma step_keeps_range:
  assumes st: "step s = (Inr (Some t), s')"
    and inv: "\<forall>v \<in> set (data_memory s). 0 \<le> v \<and> v \<le> 2047"
  shows "\<forall>v \<in> set (data_memory s'). 0 \<le> v \<and> v \<le> 2047"
proof -
  from st obtain opcode :: int where
    ex: "opcode = 111 \<and> execute_load_const s = (Inr t, s')
         \<or> opcode = 40 \<and> execute_read_mem s = (Inr t, s')
         \<or> opcode = 101 \<and> execute_write_mem s = (Inr t, s')
         \<or> opcode = 68 \<and> execute_gte s = (Inr t, s')"
    by (rule step_Some)
  from ex have "\<exists>i w. py_setitem (data_memory s) i w = Inr (data_memory s') \<and> 0 \<le> w \<and> w \<le> 2047"
  proof (elim disjE conjE)
    assume "execute_load_const s = (Inr t, s')"
    then show ?thesis
    proof (rule execute_load_const_Inr)
      fix c a m
      assume "read_bits s 7 11 = Inr c" and "py_setitem (data_memory s) a c = Inr m"
        and "s' = s\<lparr>data_memory := m, pc := pc s + 6\<rparr>"
      with read_bits_range [of s 7 11 c]
      have "py_setitem (data_memory s) a c = Inr (data_memory s') \<and> 0 \<le> c \<and> c \<le> 2047"
        by simp
      then show ?thesis by blast
    qed
  next
    assume "execute_read_mem s = (Inr t, s')"
    then show ?thesis
    proof (rule execute_read_mem_Inr)
      fix offset src_addr dst_addr base v m
      assume "py_getitem (data_memory s) (base + offset) = Inr v"
        and "py_setitem (data_memory s) dst_addr v = Inr m"
        and "s' = s\<lparr>data_memory := m, pc := pc s + 9\<rparr>"
      with inv py_getitem_mem [of "data_memory s" "base + offset" v]
      have "py_setitem (data_memory s) dst_addr v = Inr (data_memory s') \<and> 0 \<le> v \<and> v \<le> 2047"
        by simp
      then show ?thesis by blast
    qed
  next
    assume "execute_write_mem s = (Inr t, s')"
    then show ?thesis
    proof (rule execute_write_mem_Inr)
      fix src_addr dst_addr v m
      assume "py_getitem (data_memory s) src_addr = Inr v"
        and "py_setitem (data_memory s) dst_addr v = Inr m"
        and "s' = s\<lparr>data_memory := m, pc := pc s + 8\<rparr>"
      with inv py_getitem_mem [of "data_memory s" src_addr v]
      have "py_setitem (data_memory s) dst_addr v = Inr (data_memory s') \<and> 0 \<le> v \<and> v \<le> 2047"
        by simp
      then show ?thesis by blast
    qed
  next
    assume "execute_gte s = (Inr t, s')"
    then show ?thesis
    proof (rule execute_gte_Inr)
      fix base_res offset2 operand1 operand2 :: int and m
      assume "py_setitem (data_memory s) (base_res + offset2) (if operand1 \<ge> operand2 then 1 else 0) = Inr m"
        and "s' = s\<lparr>data_memory := m, pc := pc s + 13\<rparr>"
      then have "py_setitem (data_memory s) (base_res + offset2) (if operand1 \<ge> operand2 then 1 else 0)
          = Inr (data_memory s')"
        by simp
      moreover have "0 \<le> (if operand1 \<ge> operand2 then 1 else 0 :: int)"
        "(if operand1 \<ge> operand2 then 1 else 0 :: int) \<le> 2047"
        by simp_all
      ultimately show ?thesis by blast
    qed
  qed
  then obtain i w where "py_setitem (data_memory s) i w = Inr (data_memory s')"
    and "0 \<le> w" "w \<le> 2047"
    by blast
  with inv py_setitem_set [of "data_memory s" i w "data_memory s'"] show ?thesis
    by auto
qed

lemma executed_keeps_range:
  assumes "executed s s'" and "\<forall>v \<in> set (data_memory s). 0 \<le> v \<and> v \<le> 2047"
  shows "\<forall>v \<in> set (data_memory s'). 0 \<le> v \<and> v \<le> 2047"
  using assms
proof (induction rule: executed.induct)
  case (executed_none s)
  then show ?case by simp
next
  case (executed_more s s1 t s2)
  then show ?case
    using step_keeps_range [of s1 t s2] by blast
qed

section \<open>The sample machines, evaluated\<close>

lemmas sample_defs = gte_code_def gte_machine_def gte_done_def bad_machine_def bad_stopped_def

lemmas evaluation = step_def execute_load_const_def execute_read_mem_def execute_write_mem_def
  execute_gte_def read_bits_def py_slice_def adjust_index_def py_getitem_def py_setitem_def
  py_index_def

lemma gte_code_encoding: "to_bytes (Gte 1 0 1 2 0) = Inr gte_code"
  unfolding gte_code_def by code_simp

lemma step_gte_machine: "step gte_machine = (Inr (Some (TraceGte 3 3 3 1)), gte_done)"
  by (simp add: sample_defs evaluation)

lemma run_gte_machine: "run gte_machine = (None, gte_done)"
proof -
  have "int (length (code_memory gte_done)) \<le> pc gte_done"
    and "pc gte_machine < int (length (code_memory gte_machine))"
    by (simp_all add: sample_defs)
  then show ?thesis
    using step_gte_machine by (simp add: run.simps [of gte_done] run.simps [of gte_machine])
qed

lemma step_bad_machine: "step bad_machine = (Inr (Some (TraceGte 3 3 3 1)), bad_stopped)"
  by (simp add: sample_defs evaluation)

lemmas copy_sample_defs = load_code_def write_code_def read_code_def load_machine_def
  load_done_def write_machine_def write_done_def read_machine_def read_done_def

lemma sample_encodings:
  "to_bytes (LoadConst 9 2) = Inr load_code"
  "to_bytes (WriteMem 3 0) = Inr write_code"
  "to_bytes (ReadMem 1 0 3) = Inr read_code"
  unfolding load_code_def write_code_def read_code_def by code_simp+

lemma step_load_machine: "step load_machine = (Inr (Some (TraceLoadConst 2 9)), load_done)"
  by (simp add: copy_sample_defs evaluation)

lemma step_write_machine: "step write_machine = (Inr (Some (TraceWriteMem 0 3 7)), write_done)"
  by (simp add: copy_sample_defs evaluation)

lemma step_read_machine: "step read_machine = (Inr (Some (TraceReadMem 3 0 1 2 5)), read_done)"
  by (simp add: copy_sample_defs evaluation)

text \<open>
  The program of \<open>scenario_b\<close>, run on a zero-initialised memory of more than ten cells.
  The Gte instruction reads its first operand at \<open>m[0] + 0 = 10\<close>, where the memory
  holds 0, compares it with \<open>m[1] = 5\<close>, and stores the result 0 at \<open>m[2] + 0 = 0\<close>.
\<close>

lemma scenario_b_assembled:
  "LoadConstInstruction 10 0 = Inr (LoadConst 10 0)"
  "LoadConstInstruction 5 1 = Inr (LoadConst 5 1)"
  "GTEInstruction 0 0 1 2 0 = Inr (Gte 0 0 1 2 0)"
  "to_binary [LoadConst 10 0, LoadConst 5 1, Gte 0 0 1 2 0] = Inr scenario_b"
proof -
  show "to_binary [LoadConst 10 0, LoadConst 5 1, Gte 0 0 1 2 0] = Inr scenario_b"
    unfolding scenario_b_def by code_simp
qed (simp_all add: LoadConstInstruction_def GTEInstruction_def)

lemma scenario_b_step1:
  assumes "10 < n"
  shows "step \<lparr>data_memory = replicate (nat n) 0, code_memory = scenario_b, pc = 0\<rparr>
    = (Inr (Some (TraceLoadConst 0 10)),
       \<lparr>data_memory = (replicate (nat n) 0)[0 := 10], code_memory = scenario_b, pc = 6\<rparr>)"
  using assms by (simp add: scenario_b_def evaluation)

lemma scenario_b_step2:
  assumes "10 < n"
  shows "step \<lparr>data_memory = (replicate (nat n) 0)[0 := 10], code_memory = scenario_b, pc = 6\<rparr>
    = (Inr (Some (TraceLoadConst 1 5)),
       \<lparr>data_memory = (replicate (nat n) 0)[0 := 10, 1 := 5], code_memory = scenario_b, pc = 12\<rparr>)"
  using assms by (simp add: scenario_b_def evaluation)

lemma scenario_b_step3:
  assumes "10 < n"
  shows "step \<lparr>data_memory = (replicate (nat n) 0)[0 := 10, 1 := 5], code_memory = scenario_b, pc = 12\<rparr>
    = (Inr (Some (TraceGte 0 0 5 0)),
       \<lparr>data_memory = (replicate (nat n) 0)[0 := 10, 1 := 5, 0 := 0], code_memory = scenario_b, pc = 25\<rparr>)"
  using assms by (simp add: scenario_b_def evaluation)

lemma scenario_b_run:
  assumes "10 < n"
  shows "run (load_program (init_vm n) scenario_b)
    = (None, \<lparr>data_memory = (replicate (nat n) 0)[0 := 10, 1 := 5, 0 := 0],
               code_memory = scenario_b, pc = 25\<rparr>)"
proof -
  have len: "length scenario_b = 25"
    by (simp add: scenario_b_def)
  have "run (load_program (init_vm n) scenario_b)
      = run \<lparr>data_memory = replicate (nat n) 0, code_memory = scenario_b, pc = 0\<rparr>"
    by (simp add: load_program_def init_vm_def)
  also have "\<dots> = run \<lparr>data_memory = (replicate (nat n) 0)[0 := 10], code_memory = scenario_b, pc = 6\<rparr>"
    by (rule run_executed_step [OF scenario_b_step1 [OF assms]])
  also have "\<dots> = run \<lparr>data_memory = (replicate (nat n) 0)[0 := 10, 1 := 5],
                         code_memory = scenario_b, pc = 12\<rparr>"
    by (rule run_executed_step [OF scenario_b_step2 [OF assms]])
  also have "\<dots> = run \<lparr>data_memory = (replicate (nat n) 0)[0 := 10, 1 := 5, 0 := 0],
                         code_memory = scenario_b, pc = 25\<rparr>"
    by (rule run_executed_step [OF scenario_b_step3 [OF assms]])
  also have "\<dots> = (None, \<lparr>data_memory = (replicate (nat n) 0)[0 := 10, 1 := 5, 0 := 0],
                         code_memory = scenario_b, pc = 25\<rparr>)"
    by (subst run.simps) (simp add: len)
  finally show ?thesis .
qed

section \<open>The bit-field codec\<close>

text \<open>
  Claim C4. For every buffer, program counter, \<open>start_bit \<ge> 0\<close> and \<open>len \<ge> 1\<close> such
  that the bytes spanned (from \<open>pc + start_bit div 8\<close> up to, and not including,
  \<open>pc + (start_bit + len - 1) div 8 + 1\<close>) lie inside the buffer, \<^verbatim>\<open>read_bits\<close> returns
  an unsigned integer below \<open>2 ^ len\<close> whose bit \<open>i\<close>, for \<open>i < len\<close>, is bit number
  \<open>8 * pc + start_bit + i\<close> of the buffer in little-endian byte order, and whose
  other bits are zero. Neither byte alignment nor a bound on the width is assumed.
\<close>

theorem read_bits_extracts:
  assumes "0 \<le> start_bit" and "1 \<le> len"
    and "0 \<le> pc s + start_bit div 8"
    and "pc s + ((start_bit + len - 1) div 8 + 1) \<le> int (length (code_memory s))"
  shows "\<exists>v. read_bits s start_bit len = Inr v \<and> 0 \<le> v \<and> v < 2 ^ nat len \<and>
           (\<forall>i. bit v i \<longleftrightarrow>
                 i < nat len \<and> buffer_bit (code_memory s) (nat (8 * pc s + start_bit) + i))"
proof -
  let ?v = "take_bit (nat len) (drop_bit (nat (8 * pc s + start_bit)) (from_bytes_little (code_memory s)))"
  have "read_bits s start_bit len = Inr ?v"
    using assms by (intro read_bits_eq) simp_all
  moreover have "0 \<le> ?v" "?v < 2 ^ nat len"
    by simp_all
  moreover have "bit ?v i \<longleftrightarrow> i < nat len \<and> buffer_bit (code_memory s) (nat (8 * pc s + start_bit) + i)" for i
    by (simp add: bit_simps bit_from_bytes_little buffer_bit_def)
  ultimately show ?thesis by blast
qed

text \<open>A field of 98 bits that starts at bit 3 of an instruction at byte 2.\<close>

theorem read_bits_extracts_witness:
  "(0::int) \<le> 3 \<and> (1::int) \<le> 98
   \<and> (\<exists>v. read_bits \<lparr>data_memory = [], code_memory = [9, 9, 196, 255, 255, 255, 255, 1, 0, 0, 240, 255, 255, 255, 31, 7], pc = 2\<rparr> 3 98 = Inr v
          \<and> 0 \<le> v \<and> v < 2 ^ 98
          \<and> (\<forall>i. bit v i \<longleftrightarrow> i < 98 \<and> buffer_bit [9, 9, 196, 255, 255, 255, 255, 1, 0, 0, 240, 255, 255, 255, 31, 7] (19 + i)))"
  using read_bits_extracts [of 3 98 "\<lparr>data_memory = [], code_memory = [9, 9, 196, 255, 255, 255, 255, 1, 0, 0, 240, 255, 255, 255, 31, 7], pc = 2\<rparr>"]
  by simp

section \<open>Encoding\<close>

text \<open>
  Claim C5. For every validly constructed instruction, whatever its operands,
  \<^verbatim>\<open>to_bytes\<close> returns (it raises nothing: the packed integer is not negative and
  fits) and the result has the fixed length of the variant: 6 bytes for LoadConst,
  9 for ReadMem, 8 for WriteMem, 13 for Gte.
\<close>

theorem to_bytes_fixed_length:
  assumes "constructed i"
  shows "\<exists>bs. to_bytes i = Inr bs \<and>
           length bs = (case i of LoadConst constant address \<Rightarrow> 6
                        | ReadMem offset src_addr dst_addr \<Rightarrow> 9
                        | WriteMem src_addr dst_addr \<Rightarrow> 8
                        | Gte offset1 addr1 addr2 res_addr offset2 \<Rightarrow> 13)"
proof -
  from assms have w: "in_width i"
    by (simp add: constructed_in_width)
  have "to_bytes i = Inr (bytes_little (byte_length i) (packed_value i))"
    using packed_value_fits [OF w] by (simp add: to_bytes_def int_to_bytes_def)
  moreover have "length (bytes_little (byte_length i) (packed_value i)) = byte_length i"
    by (rule length_bytes_little)
  ultimately show ?thesis
    by (cases i) simp_all
qed

theorem to_bytes_fixed_length_witness:
  "constructed (Gte 255 67108863 0 67108862 255)
   \<and> (\<exists>bs. to_bytes (Gte 255 67108863 0 67108862 255) = Inr bs \<and> length bs = 13)"
  using to_bytes_fixed_length [of "Gte 255 67108863 0 67108862 255"]
  by (simp add: GTEInstruction_def)

text \<open>
  Claim C6. For each variant and each operand, the constructor called with that operand
  equal to \<open>2 ^ width\<close> (2048, 256, 67108864), the other operands in range, raises the
  range error that holds the operand's label, the value and the range, and with
  \<open>2 ^ width - 1\<close> it returns the instruction. For any operands \<open>x1\<close>, ... whatever, a
  constructor either returns the instruction with exactly these operands, all within
  their widths, or raises a range error that holds one of the operands, which is
  outside the range the error holds: no operand is truncated or wrapped.
\<close>

theorem range_enforcement:
  assumes "0 \<le> c \<and> c < 2048"
    and "0 \<le> a \<and> a < 67108864" and "0 \<le> a' \<and> a' < 67108864"
    and "0 \<le> a'' \<and> a'' < 67108864"
    and "0 \<le> off \<and> off < 256" and "0 \<le> off' \<and> off' < 256"
  shows "LoadConstInstruction 2048 a = Inl (ValueError_Range Constant 2048 0 2047)
    \<and> LoadConstInstruction 2047 a = Inr (LoadConst 2047 a)
    \<and> LoadConstInstruction c 67108864 = Inl (ValueError_Range Address 67108864 0 67108863)
    \<and> LoadConstInstruction c 67108863 = Inr (LoadConst c 67108863)
    \<and> ReadMemInstruction 256 a a' = Inl (ValueError_Range Offset 256 0 255)
    \<and> ReadMemInstruction 255 a a' = Inr (ReadMem 255 a a')
    \<and> ReadMemInstruction off 67108864 a' = Inl (ValueError_Range Address 67108864 0 67108863)
    \<and> ReadMemInstruction off 67108863 a' = Inr (ReadMem off 67108863 a')
    \<and> ReadMemInstruction off a 67108864 = Inl (ValueError_Range Address 67108864 0 67108863)
    \<and> ReadMemInstruction off a 67108863 = Inr (ReadMem off a 67108863)
    \<and> WriteMemInstruction 67108864 a' = Inl (ValueError_Range Address 67108864 0 67108863)
    \<and> WriteMemInstruction 67108863 a' = Inr (WriteMem 67108863 a')
    \<and> WriteMemInstruction a 67108864 = Inl (ValueError_Range Address 67108864 0 67108863)
    \<and> WriteMemInstruction a 67108863 = Inr (WriteMem a 67108863)
    \<and> GTEInstruction 256 a a' a'' off' = Inl (ValueError_Range Offset1 256 0 255)
    \<and> GTEInstruction 255 a a' a'' off' = Inr (Gte 255 a a' a'' off')
    \<and> GTEInstruction off 67108864 a' a'' off' = Inl (ValueError_Range Address1 67108864 0 67108863)
    \<and> GTEInstruction off 67108863 a' a'' off' = Inr (Gte off 67108863 a' a'' off')
    \<and> GTEInstruction off a 67108864 a'' off' = Inl (ValueError_Range Address2 67108864 0 67108863)
    \<and> GTEInstruction off a 67108863 a'' off' = Inr (Gte off a 67108863 a'' off')
    \<and> GTEInstruction off a a' 67108864 off' = Inl (ValueError_Range ResultAddress 67108864 0 67108863)
    \<and> GTEInstruction off a a' 67108863 off' = Inr (Gte off a a' 67108863 off')
    \<and> GTEInstruction off a a' a'' 256 = Inl (ValueError_Range Offset2 256 0 255)
    \<and> GTEInstruction off a a' a'' 255 = Inr (Gte off a a' a'' 255)
    \<and> (case LoadConstInstruction x1 x2 of
          Inr i \<Rightarrow> i = LoadConst x1 x2 \<and> in_width i
        | Inl e \<Rightarrow> \<not> in_width (LoadConst x1 x2)
            \<and> (\<exists>label v hi. e = ValueError_Range label v 0 hi \<and> v \<in> {x1, x2} \<and> (v < 0 \<or> hi < v)))
    \<and> (case ReadMemInstruction x1 x2 x3 of
          Inr i \<Rightarrow> i = ReadMem x1 x2 x3 \<and> in_width i
        | Inl e \<Rightarrow> \<not> in_width (ReadMem x1 x2 x3)
            \<and> (\<exists>label v hi. e = ValueError_Range label v 0 hi \<and> v \<in> {x1, x2, x3} \<and> (v < 0 \<or> hi < v)))
    \<and> (case WriteMemInstruction x1 x2 of
          Inr i \<Rightarrow> i = WriteMem x1 x2 \<and> in_width i
        | Inl e \<Rightarrow> \<not> in_width (WriteMem x1 x2)
            \<and> (\<exists>label v hi. e = ValueError_Range label v 0 hi \<and> v \<in> {x1, x2} \<and> (v < 0 \<or> hi < v)))
    \<and> (case GTEInstruction x1 x2 x3 x4 x5 of
          Inr i \<Rightarrow> i = Gte x1 x2 x3 x4 x5 \<and> in_width i
        | Inl e \<Rightarrow> \<not> in_width (Gte x1 x2 x3 x4 x5)
            \<and> (\<exists>label v hi. e = ValueError_Range label v 0 hi \<and> v \<in> {x1, x2, x3, x4, x5}
                  \<and> (v < 0 \<or> hi < v)))"
proof -
  have lc: "LoadConstInstruction 2048 a = Inl (ValueError_Range Constant 2048 0 2047)"
    "LoadConstInstruction 2047 a = Inr (LoadConst 2047 a)"
    "LoadConstInstruction c 67108864 = Inl (ValueError_Range Address 67108864 0 67108863)"
    "LoadConstInstruction c 67108863 = Inr (LoadConst c 67108863)"
    using assms by (simp_all add: LoadConstInstruction_def)
  have rm: "ReadMemInstruction 256 a a' = Inl (ValueError_Range Offset 256 0 255)"
    "ReadMemInstruction 255 a a' = Inr (ReadMem 255 a a')"
    "ReadMemInstruction off 67108864 a' = Inl (ValueError_Range Address 67108864 0 67108863)"
    "ReadMemInstruction off 67108863 a' = Inr (ReadMem off 67108863 a')"
    "ReadMemInstruction off a 67108864 = Inl (ValueError_Range Address 67108864 0 67108863)"
    "ReadMemInstruction off a 67108863 = Inr (ReadMem off a 67108863)"
    using assms by (simp_all add: ReadMemInstruction_def)
  have wm: "WriteMemInstruction 67108864 a' = Inl (ValueError_Range Address 67108864 0 67108863)"
    "WriteMemInstruction 67108863 a' = Inr (WriteMem 67108863 a')"
    "WriteMemInstruction a 67108864 = Inl (ValueError_Range Address 67108864 0 67108863)"
    "WriteMemInstruction a 67108863 = Inr (WriteMem a 67108863)"
    using assms by (simp_all add: WriteMemInstruction_def)
  have gt: "GTEInstruction 256 a a' a'' off' = Inl (ValueError_Range Offset1 256 0 255)"
    "GTEInstruction 255 a a' a'' off' = Inr (Gte 255 a a' a'' off')"
    "GTEInstruction off 67108864 a' a'' off' = Inl (ValueError_Range Address1 67108864 0 67108863)"
    "GTEInstruction off 67108863 a' a'' off' = Inr (Gte off 67108863 a' a'' off')"
    "GTEInstruction off a 67108864 a'' off' = Inl (ValueError_Range Address2 67108864 0 67108863)"
    "GTEInstruction off a 67108863 a'' off' = Inr (Gte off a 67108863 a'' off')"
    "GTEInstruction off a a' 67108864 off' = Inl (ValueError_Range ResultAddress 67108864 0 67108863)"
    "GTEInstruction off a a' 67108863 off' = Inr (Gte off a a' 67108863 off')"
    "GTEInstruction off a a' a'' 256 = Inl (ValueError_Range Offset2 256 0 255)"
    "GTEInstruction off a a' a'' 255 = Inr (Gte off a a' a'' 255)"
    using assms by (simp_all add: GTEInstruction_def)
  have g1: "case LoadConstInstruction x1 x2 of
          Inr i \<Rightarrow> i = LoadConst x1 x2 \<and> in_width i
        | Inl e \<Rightarrow> \<not> in_width (LoadConst x1 x2)
            \<and> (\<exists>label v hi. e = ValueError_Range label v 0 hi \<and> v \<in> {x1, x2} \<and> (v < 0 \<or> hi < v))"
    by (auto simp: LoadConstInstruction_def)
  have g2: "case ReadMemInstruction x1 x2 x3 of
          Inr i \<Rightarrow> i = ReadMem x1 x2 x3 \<and> in_width i
        | Inl e \<Rightarrow> \<not> in_width (ReadMem x1 x2 x3)
            \<and> (\<exists>label v hi. e = ValueError_Range label v 0 hi \<and> v \<in> {x1, x2, x3} \<and> (v < 0 \<or> hi < v))"
    by (auto simp: ReadMemInstruction_def)
  have g3: "case WriteMemInstruction x1 x2 of
          Inr i \<Rightarrow> i = WriteMem x1 x2 \<and> in_width i
        | Inl e \<Rightarrow> \<not> in_width (WriteMem x1 x2)
            \<and> (\<exists>label v hi. e = ValueError_Range label v 0 hi \<and> v \<in> {x1, x2} \<and> (v < 0 \<or> hi < v))"
    by (auto simp: WriteMemInstruction_def)
  have g4: "case GTEInstruction x1 x2 x3 x4 x5 of
          Inr i \<Rightarrow> i = Gte x1 x2 x3 x4 x5 \<and> in_width i
        | Inl e \<Rightarrow> \<not> in_width (Gte x1 x2 x3 x4 x5)
            \<and> (\<exists>label v hi. e = ValueError_Range label v 0 hi \<and> v \<in> {x1, x2, x3, x4, x5}
                  \<and> (v < 0 \<or> hi < v))"
    by (auto simp: GTEInstruction_def)
  show ?thesis
    by (intro conjI lc rm wm gt g1 g2 g3 g4)
qed

text \<open>Constant 7, addresses 1, 2, 3 and offsets 4, 5 as the operands in range.\<close>

theorem range_enforcement_witness:
  "((0::int) \<le> 7 \<and> (7::int) < 2048) \<and> ((0::int) \<le> 1 \<and> (1::int) < 67108864)
   \<and> ((0::int) \<le> 4 \<and> (4::int) < 256)
   \<and> LoadConstInstruction 2048 1 = Inl (ValueError_Range Constant 2048 0 2047)
   \<and> LoadConstInstruction 2047 1 = Inr (LoadConst 2047 1)
   \<and> LoadConstInstruction 7 67108864 = Inl (ValueError_Range Address 67108864 0 67108863)
   \<and> LoadConstInstruction 7 67108863 = Inr (LoadConst 7 67108863)
   \<and> GTEInstruction 4 1 2 3 256 = Inl (ValueError_Range Offset2 256 0 255)
   \<and> GTEInstruction 4 1 2 3 255 = Inr (Gte 4 1 2 3 255)"
proof -
  have h: "(0::int) \<le> 7 \<and> (7::int) < 2048" "(0::int) \<le> 1 \<and> (1::int) < 67108864"
    "(0::int) \<le> 2 \<and> (2::int) < 67108864" "(0::int) \<le> 3 \<and> (3::int) < 67108864"
    "(0::int) \<le> 4 \<and> (4::int) < 256" "(0::int) \<le> 5 \<and> (5::int) < 256"
    by simp_all
  from range_enforcement [OF h, of 0 0 0 0 0] h show ?thesis
    by blast
qed

text \<open>
  Claim C1. For every instruction whose operands are within their declared
  bit-widths, if \<^verbatim>\<open>to_bytes\<close> returns \<open>enc\<close> and the program counter stands at the start
  of a copy of \<open>enc\<close> in the instruction buffer, then \<^verbatim>\<open>read_bits\<close> at the bit offsets
  and widths of the layout table (the ones the \<^verbatim>\<open>execute_\<close> methods use) returns the
  opcode of the variant and each operand unchanged.
\<close>

theorem fields_round_trip:
  assumes "in_width i" and "to_bytes i = Inr enc"
    and "code_memory s = pre @ enc @ post" and "pc s = int (length pre)"
  shows "case i of
      LoadConst constant address \<Rightarrow>
        read_bits s 0 7 = Inr 111 \<and> read_bits s 7 11 = Inr constant
        \<and> read_bits s 18 26 = Inr address
    | ReadMem offset src_addr dst_addr \<Rightarrow>
        read_bits s 0 7 = Inr 40 \<and> read_bits s 7 8 = Inr offset
        \<and> read_bits s 15 26 = Inr src_addr \<and> read_bits s 41 26 = Inr dst_addr
    | WriteMem src_addr dst_addr \<Rightarrow>
        read_bits s 0 7 = Inr 101 \<and> read_bits s 7 26 = Inr src_addr
        \<and> read_bits s 33 26 = Inr dst_addr
    | Gte offset1 addr1 addr2 res_addr offset2 \<Rightarrow>
        read_bits s 0 7 = Inr 68 \<and> read_bits s 7 8 = Inr offset1
        \<and> read_bits s 15 26 = Inr addr1 \<and> read_bits s 41 26 = Inr addr2
        \<and> read_bits s 67 26 = Inr res_addr \<and> read_bits s 93 8 = Inr offset2"
proof -
  note rd = read_bits_to_bytes [OF assms(2-4)]
  show ?thesis
  proof (cases i)
    case (LoadConst c a)
    with assms(1) rd [of 0 7] rd [of 7 11] rd [of 18 26] show ?thesis
      by (simp add: fields_LoadConst del: packed_value.simps)
  next
    case (ReadMem off src dst)
    with assms(1) rd [of 0 7] rd [of 7 8] rd [of 15 26] rd [of 41 26] show ?thesis
      by (simp add: fields_ReadMem del: packed_value.simps)
  next
    case (WriteMem src dst)
    with assms(1) rd [of 0 7] rd [of 7 26] rd [of 33 26] show ?thesis
      by (simp add: fields_WriteMem del: packed_value.simps)
  next
    case (Gte o1 a1 a2 r o2)
    with assms(1) rd [of 0 7] rd [of 7 8] rd [of 15 26] rd [of 41 26] rd [of 67 26] rd [of 93 8]
    show ?thesis
      by (simp add: fields_Gte del: packed_value.simps)
  qed
qed

text \<open>A Gte instruction with operands at and next to their maxima, at byte 2 of a buffer.\<close>

theorem fields_round_trip_witness:
  "in_width (Gte 255 67108863 0 67108862 255)
   \<and> to_bytes (Gte 255 67108863 0 67108862 255)
       = Inr [196, 255, 255, 255, 255, 1, 0, 0, 240, 255, 255, 255, 31]
   \<and> read_bits \<lparr>data_memory = [], code_memory = [9, 9] @ [196, 255, 255, 255, 255, 1, 0, 0, 240, 255, 255, 255, 31] @ [7], pc = 2\<rparr> 0 7 = Inr 68
   \<and> read_bits \<lparr>data_memory = [], code_memory = [9, 9] @ [196, 255, 255, 255, 255, 1, 0, 0, 240, 255, 255, 255, 31] @ [7], pc = 2\<rparr> 7 8 = Inr 255
   \<and> read_bits \<lparr>data_memory = [], code_memory = [9, 9] @ [196, 255, 255, 255, 255, 1, 0, 0, 240, 255, 255, 255, 31] @ [7], pc = 2\<rparr> 15 26 = Inr 67108863
   \<and> read_bits \<lparr>data_memory = [], code_memory = [9, 9] @ [196, 255, 255, 255, 255, 1, 0, 0, 240, 255, 255, 255, 31] @ [7], pc = 2\<rparr> 41 26 = Inr 0
   \<and> read_bits \<lparr>data_memory = [], code_memory = [9, 9] @ [196, 255, 255, 255, 255, 1, 0, 0, 240, 255, 255, 255, 31] @ [7], pc = 2\<rparr> 67 26 = Inr 67108862
   \<and> read_bits \<lparr>data_memory = [], code_memory = [9, 9] @ [196, 255, 255, 255, 255, 1, 0, 0, 240, 255, 255, 255, 31] @ [7], pc = 2\<rparr> 93 8 = Inr 255"
proof -
  have enc: "to_bytes (Gte 255 67108863 0 67108862 255)
       = Inr [196, 255, 255, 255, 255, 1, 0, 0, 240, 255, 255, 255, 31]"
    by code_simp
  show ?thesis
    using fields_round_trip [of "Gte 255 67108863 0 67108862 255"
        "[196, 255, 255, 255, 255, 1, 0, 0, 240, 255, 255, 255, 31]"
        "\<lparr>data_memory = [], code_memory = [9, 9] @ [196, 255, 255, 255, 255, 1, 0, 0, 240, 255, 255, 255, 31] @ [7], pc = 2\<rparr>"
        "[9, 9]" "[7]"] enc
    by simp
qed

section \<open>Execution\<close>

text \<open>
  Claim C2. On a machine whose opcode field holds 68 and whose fields decode to
  \<open>offset1\<close>, \<open>addr1\<close>, \<open>addr2\<close>, \<open>res_addr\<close>, \<open>offset2\<close>, with data memory \<open>m\<close> and all
  addresses involved within \<open>[0, length m)\<close>, one step computes the effective address 1
  as \<open>m[addr1] + offset1\<close> and the effective result address as \<open>m[res_addr] + offset2\<close>,
  reads operand 1 at the effective address 1 and operand 2 at \<open>addr2\<close> itself, stores
  1 at the effective result address if operand 1 is at least operand 2 and 0 otherwise,
  and moves the program counter 13 bytes on.
\<close>

theorem gte_semantics:
  assumes "pc s < int (length (code_memory s))"
    and "read_bits s 0 7 = Inr 68"
    and "read_bits s 7 8 = Inr offset1" and "read_bits s 15 26 = Inr addr1"
    and "read_bits s 41 26 = Inr addr2" and "read_bits s 67 26 = Inr res_addr"
    and "read_bits s 93 8 = Inr offset2"
    and "m = data_memory s"
    and "addr1 < int (length m)" and "addr2 < int (length m)" and "res_addr < int (length m)"
    and "effective_addr1 = m ! nat addr1 + offset1"
    and "0 \<le> effective_addr1" and "effective_addr1 < int (length m)"
    and "effective_res_addr = m ! nat res_addr + offset2"
    and "0 \<le> effective_res_addr" and "effective_res_addr < int (length m)"
    and "operand1 = m ! nat effective_addr1" and "operand2 = m ! nat addr2"
    and "result = (if operand1 \<ge> operand2 then 1 else 0)"
  shows "step s = (Inr (Some (TraceGte effective_res_addr operand1 operand2 result)),
                   s\<lparr>data_memory := m[nat effective_res_addr := result], pc := pc s + 13\<rparr>)"
proof -
  have nonneg: "0 \<le> addr1" "0 \<le> addr2" "0 \<le> res_addr"
    using read_bits_range [OF assms(4)] read_bits_range [OF assms(5)] read_bits_range [OF assms(6)]
    by simp_all
  have g: "py_getitem m addr1 = Inr (m ! nat addr1)" "py_getitem m addr2 = Inr (m ! nat addr2)"
    "py_getitem m res_addr = Inr (m ! nat res_addr)"
    "py_getitem m effective_addr1 = Inr (m ! nat effective_addr1)"
    using nonneg assms(9-11,13,14) by (simp_all add: py_getitem_def py_index_inside)
  have w: "py_setitem m effective_res_addr result = Inr (m[nat effective_res_addr := result])"
    using assms(16,17) by (simp add: py_setitem_def py_index_inside)
  have "execute_gte s = (Inr (TraceGte effective_res_addr operand1 operand2 result),
                   s\<lparr>data_memory := m[nat effective_res_addr := result], pc := pc s + 13\<rparr>)"
    using g w assms(2-8,12,15,18-20) by (simp add: execute_gte_def Let_def)
  then show ?thesis
    using assms(1,2) by (simp add: step_def)
qed

text \<open>The sample machine: operands 3 and 3, result 1 stored at cell 3.\<close>

theorem gte_semantics_witness:
  "pc gte_machine < int (length (code_memory gte_machine))
   \<and> read_bits gte_machine 0 7 = Inr 68
   \<and> read_bits gte_machine 7 8 = Inr 1 \<and> read_bits gte_machine 15 26 = Inr 0
   \<and> read_bits gte_machine 41 26 = Inr 1 \<and> read_bits gte_machine 67 26 = Inr 2
   \<and> read_bits gte_machine 93 8 = Inr 0
   \<and> data_memory gte_machine = [1, 3, 3, 7]
   \<and> step gte_machine =
       (Inr (Some (TraceGte 3 3 3 1)), gte_machine\<lparr>data_memory := [1, 3, 3, 1], pc := 13\<rparr>)"
proof -
  have fields: "pc gte_machine < int (length (code_memory gte_machine))"
    "read_bits gte_machine 0 7 = Inr 68"
    "read_bits gte_machine 7 8 = Inr 1" "read_bits gte_machine 15 26 = Inr 0"
    "read_bits gte_machine 41 26 = Inr 1" "read_bits gte_machine 67 26 = Inr 2"
    "read_bits gte_machine 93 8 = Inr 0"
    "[1, 3, 3, 7] = data_memory gte_machine"
    by (simp_all add: sample_defs read_bits_def py_slice_def adjust_index_def)
  have bounds: "(0::int) < int (length [1, 3, 3, 7 :: int])" "(1::int) < int (length [1, 3, 3, 7 :: int])"
    "(2::int) < int (length [1, 3, 3, 7 :: int])"
    "(2::int) = [1, 3, 3, 7] ! nat 0 + 1" "(0::int) \<le> 2" "(2::int) < int (length [1, 3, 3, 7 :: int])"
    "(3::int) = [1, 3, 3, 7] ! nat 2 + 0" "(0::int) \<le> 3" "(3::int) < int (length [1, 3, 3, 7 :: int])"
    "(3::int) = [1, 3, 3, 7] ! nat 2" "(3::int) = [1, 3, 3, 7] ! nat 1"
    "(1::int) = (if (3::int) \<ge> 3 then 1 else 0)"
    by simp_all
  have vals: "data_memory gte_machine = [1, 3, 3, 7]" "pc gte_machine = 0"
    by (simp_all add: gte_machine_def)
  from gte_semantics [OF fields bounds] fields(1-7) show ?thesis
    by (simp add: vals)
qed

text \<open>
  Claim C3, as the code has it. The three instructions \<^verbatim>\<open>LOAD_CONST 10 0\<close>,
  \<^verbatim>\<open>LOAD_CONST 5 1\<close>, \<^verbatim>\<open>GTE 0 0 1 2 0\<close> are constructed and assembled without error,
  and the run of their binary from a zero-initialised memory of more than ten cells
  ends without error with \<open>memory[2] = 0\<close>: operand 1 is \<open>memory[memory[0] + 0] =
  memory[10] = 0\<close>, which is less than \<open>memory[1] = 5\<close>, and the result 0 is stored at
  \<open>memory[memory[2] + 0] = memory[0]\<close>.
\<close>

theorem scenario_b_stores_zero:
  assumes "10 < memory_size"
  shows "\<exists>i1 i2 i3 binary s'.
           LoadConstInstruction 10 0 = Inr i1 \<and> LoadConstInstruction 5 1 = Inr i2
           \<and> GTEInstruction 0 0 1 2 0 = Inr i3 \<and> to_binary [i1, i2, i3] = Inr binary
           \<and> run (load_program (init_vm memory_size) binary) = (None, s')
           \<and> data_memory s' ! 2 = 0 \<and> data_memory s' ! 0 = 0 \<and> data_memory s' ! 1 = 5"
proof -
  let ?s = "\<lparr>data_memory = (replicate (nat memory_size) 0)[0 := 10, 1 := 5, 0 := 0],
               code_memory = scenario_b, pc = 25\<rparr>"
  have "data_memory ?s ! 2 = 0" "data_memory ?s ! 0 = 0" "data_memory ?s ! 1 = 5"
    using assms by simp_all
  with scenario_b_assembled scenario_b_run [OF assms] show ?thesis
    by blast
qed

text \<open>The memory of 100000 cells that a machine has by default.\<close>

theorem scenario_b_stores_zero_witness:
  "(10::int) < 100000
   \<and> (\<exists>i1 i2 i3 binary s'.
           LoadConstInstruction 10 0 = Inr i1 \<and> LoadConstInstruction 5 1 = Inr i2
           \<and> GTEInstruction 0 0 1 2 0 = Inr i3 \<and> to_binary [i1, i2, i3] = Inr binary
           \<and> run (load_program (init_vm 100000) binary) = (None, s')
           \<and> data_memory s' ! 2 = 0 \<and> data_memory s' ! 0 = 0 \<and> data_memory s' ! 1 = 5)"
proof -
  have "(10::int) < 100000"
    by simp
  with scenario_b_stores_zero [of 100000] show ?thesis
    by blast
qed

text \<open>
  The claim as stated, \<open>memory[2] = 1\<close> at the end of the run, fails on the default
  memory of 100000 cells.
\<close>

theorem scenario_b_counterexample:
  "LoadConstInstruction 10 0 = Inr (LoadConst 10 0)
   \<and> LoadConstInstruction 5 1 = Inr (LoadConst 5 1)
   \<and> GTEInstruction 0 0 1 2 0 = Inr (Gte 0 0 1 2 0)
   \<and> to_binary [LoadConst 10 0, LoadConst 5 1, Gte 0 0 1 2 0] = Inr scenario_b
   \<and> fst (run (load_program (init_vm 100000) scenario_b)) = None
   \<and> data_memory (snd (run (load_program (init_vm 100000) scenario_b))) ! 2 \<noteq> 1"
proof -
  have "(10::int) < 100000"
    by simp
  from scenario_b_run [OF this] scenario_b_assembled show ?thesis
    by simp
qed

text \<open>
  Claim C7. The program counter is 0 after \<^verbatim>\<open>load_program\<close>; a step that executes an
  instruction adds the fixed byte length of the variant of its opcode (6, 9, 8 or 13),
  so the counter of any later machine of a run is strictly greater; \<^verbatim>\<open>run\<close> returns
  without an exception only with the counter at or past the end of the binary, returns
  at once from such a machine, and otherwise executes a further step (ending only on
  that step's exception).
\<close>

theorem pc_discipline:
  "pc (load_program s0 binary_code) = 0
   \<and> (step s = (Inr (Some t), s') \<longrightarrow>
        (\<exists>opcode. read_bits s 0 7 = Inr opcode \<and> opcode \<in> {111, 40, 101, 68}
           \<and> pc s' = pc s + fixed_length opcode)
        \<and> pc s < pc s')
   \<and> (executed s s1 \<and> step s1 = (Inr (Some t1), s2) \<longrightarrow> pc s < pc s2)
   \<and> (run s = (None, s3) \<longrightarrow>
        code_memory s3 = code_memory s \<and> int (length (code_memory s3)) \<le> pc s3)
   \<and> (int (length (code_memory s)) \<le> pc s \<longrightarrow> run s = (None, s))
   \<and> (pc s < int (length (code_memory s)) \<longrightarrow>
        (\<exists>e. step s = (Inl e, s) \<and> run s = (Some e, s))
        \<or> (\<exists>t s1. step s = (Inr (Some t), s1) \<and> run s = run s1))"
proof (intro conjI impI)
  show "pc (load_program s0 binary_code) = 0"
    by (simp add: load_program_def)
next
  assume "step s = (Inr (Some t), s')"
  then show "\<exists>opcode. read_bits s 0 7 = Inr opcode \<and> opcode \<in> {111, 40, 101, 68}
           \<and> pc s' = pc s + fixed_length opcode"
    by (rule step_length)
next
  assume "step s = (Inr (Some t), s')"
  then show "pc s < pc s'"
    by (simp add: step_advances)
next
  assume "executed s s1 \<and> step s1 = (Inr (Some t1), s2)"
  then show "pc s < pc s2"
    using executed_pc [of s s1] step_advances [of s1 t1 s2] by simp
next
  assume "run s = (None, s3)"
  then show "code_memory s3 = code_memory s"
    by (rule run_code)
next
  assume "run s = (None, s3)"
  then show "int (length (code_memory s3)) \<le> pc s3"
    by (rule run_None)
next
  assume "int (length (code_memory s)) \<le> pc s"
  then show "run s = (None, s)"
    by (simp add: run.simps [of s])
next
  assume "pc s < int (length (code_memory s))"
  then show "(\<exists>e. step s = (Inl e, s) \<and> run s = (Some e, s))
        \<or> (\<exists>t s1. step s = (Inr (Some t), s1) \<and> run s = run s1)"
    by (rule run_continues)
qed

text \<open>The run of the sample machine: one instruction of 13 bytes, then the end.\<close>

theorem pc_discipline_witness:
  "pc (load_program gte_done gte_code) = 0
   \<and> step gte_machine = (Inr (Some (TraceGte 3 3 3 1)), gte_done)
   \<and> read_bits gte_machine 0 7 = Inr 68 \<and> fixed_length 68 = 13
   \<and> pc gte_done = pc gte_machine + 13
   \<and> executed gte_machine gte_machine \<and> pc gte_machine < pc gte_done
   \<and> run gte_machine = (None, gte_done)
   \<and> int (length (code_memory gte_done)) \<le> pc gte_done
   \<and> run gte_done = (None, gte_done)
   \<and> pc gte_machine < int (length (code_memory gte_machine))"
proof -
  note d = pc_discipline [where s = gte_machine and s' = gte_done and t = "TraceGte 3 3 3 1"
      and ?s1.0 = gte_machine and ?t1.0 = "TraceGte 3 3 3 1" and ?s2.0 = gte_done
      and ?s3.0 = gte_done and ?s0.0 = gte_done and binary_code = gte_code]
  have a: "pc gte_machine < int (length (code_memory gte_machine))"
    "read_bits gte_machine 0 7 = Inr 68" "pc gte_done = pc gte_machine + 13" "fixed_length 68 = 13"
    by (simp_all add: sample_defs read_bits_def py_slice_def adjust_index_def fixed_length_def)
  have b: "executed gte_machine gte_machine"
    by (rule executed_none)
  have c1: "pc (load_program gte_done gte_code) = 0"
    using d by blast
  have c2: "pc gte_machine < pc gte_done"
    using d b step_gte_machine by blast
  have c3: "int (length (code_memory gte_done)) \<le> pc gte_done"
    using d run_gte_machine by blast
  have c4: "run gte_done = (None, gte_done)"
    using pc_discipline [where s = gte_done and s' = gte_done and t = "TraceGte 3 3 3 1"
      and ?s1.0 = gte_machine and ?t1.0 = "TraceGte 3 3 3 1" and ?s2.0 = gte_done
      and ?s3.0 = gte_done and ?s0.0 = gte_done and binary_code = gte_code] c3
    by blast
  show ?thesis
    using a b c1 c2 c3 c4 step_gte_machine run_gte_machine by blast
qed

text \<open>
  Claim C8. If the opcode field at the program counter is none of 111, 40, 101, 68,
  the step raises the unknown-opcode error with that opcode and position and leaves
  the whole machine (program counter and data memory) as it was; a run that reached
  this machine by executing earlier instructions ends with that error in exactly this
  machine, so what the earlier steps stored is kept.
\<close>

theorem unknown_opcode_fatal:
  assumes "executed s0 s" and "pc s < int (length (code_memory s))"
    and "read_bits s 0 7 = Inr opcode" and "opcode \<notin> {111, 40, 101, 68}"
  shows "step s = (Inl (ValueError_UnknownOpcode opcode (pc s)), s)
         \<and> run s0 = (Some (ValueError_UnknownOpcode opcode (pc s)), s)"
proof -
  have st: "step s = (Inl (ValueError_UnknownOpcode opcode (pc s)), s)"
    using assms(2-4) by (simp add: step_def)
  then have "run s = (Some (ValueError_UnknownOpcode opcode (pc s)), s)"
    using assms(2) by (simp add: run.simps [of s])
  with run_executed [OF assms(1)] st show ?thesis
    by simp
qed

text \<open>The byte 0 after the instruction: cell 3, stored by the instruction, keeps its 1.\<close>

theorem unknown_opcode_fatal_witness:
  "executed bad_machine bad_stopped
   \<and> pc bad_stopped < int (length (code_memory bad_stopped))
   \<and> read_bits bad_stopped 0 7 = Inr 0
   \<and> (0::int) \<notin> {111, 40, 101, 68}
   \<and> step bad_stopped = (Inl (ValueError_UnknownOpcode 0 13), bad_stopped)
   \<and> run bad_machine = (Some (ValueError_UnknownOpcode 0 13), bad_stopped)
   \<and> data_memory bad_machine ! 3 = 7 \<and> data_memory bad_stopped ! 3 = 1"
proof -
  have e: "executed bad_machine bad_stopped"
    using executed_more [OF executed_none step_bad_machine] .
  have a: "pc bad_stopped < int (length (code_memory bad_stopped))"
    "read_bits bad_stopped 0 7 = Inr 0" "pc bad_stopped = 13"
    "data_memory bad_machine ! 3 = 7" "data_memory bad_stopped ! 3 = 1"
    by (simp_all add: sample_defs read_bits_def py_slice_def adjust_index_def)
  have n: "(0::int) \<notin> {111, 40, 101, 68}"
    by simp
  from unknown_opcode_fatal [OF e a(1,2) n] have
    "step bad_stopped = (Inl (ValueError_UnknownOpcode 0 13), bad_stopped)"
    "run bad_machine = (Some (ValueError_UnknownOpcode 0 13), bad_stopped)"
    by (simp_all add: a(3))
  with e a n show ?thesis
    by blast
qed

text \<open>
  Claim C9. A step that executes an instruction stores to exactly one cell of the data
  memory, and the theorem says which cell and what value. For LoadConst the cell is the
  one denoted by \<open>address\<close> and the value is the decoded constant; for ReadMem the cell
  is \<open>dst_addr\<close> and the value is the content of \<open>m[src_addr] + offset\<close>; for WriteMem the
  cell is \<open>dst_addr\<close> and the value is the content of \<open>src_addr\<close>; for Gte the cell is the
  effective result address \<open>m[res_addr] + offset2\<close> and the value is 1 if the content of
  \<open>m[addr1] + offset1\<close> is at least the content of \<open>addr2\<close>, and 0 otherwise. After the
  step that cell holds that value; every other cell, the length of the memory and the
  instruction buffer are unchanged.
\<close>

theorem step_writes_one_cell:
  assumes "step s = (Inr (Some t), s')"
  shows "code_memory s' = code_memory s
    \<and> length (data_memory s') = length (data_memory s)
    \<and> (\<exists>target v k.
          (case t of
             TraceLoadConst address constant \<Rightarrow>
               target = address \<and> v = constant
               \<and> read_bits s 0 7 = Inr 111
               \<and> read_bits s 7 11 = Inr constant \<and> read_bits s 18 26 = Inr address
           | TraceReadMem dst_addr src_addr offset effective_addr v' \<Rightarrow>
               target = dst_addr \<and> v = v'
               \<and> read_bits s 0 7 = Inr 40
               \<and> read_bits s 7 8 = Inr offset \<and> read_bits s 15 26 = Inr src_addr
               \<and> read_bits s 41 26 = Inr dst_addr
               \<and> (\<exists>base. py_getitem (data_memory s) src_addr = Inr base
                     \<and> effective_addr = base + offset)
               \<and> py_getitem (data_memory s) effective_addr = Inr v'
           | TraceWriteMem dst_addr src_addr v' \<Rightarrow>
               target = dst_addr \<and> v = v'
               \<and> read_bits s 0 7 = Inr 101
               \<and> read_bits s 7 26 = Inr src_addr \<and> read_bits s 33 26 = Inr dst_addr
               \<and> py_getitem (data_memory s) src_addr = Inr v'
           | TraceGte effective_res_addr operand1 operand2 result \<Rightarrow>
               target = effective_res_addr \<and> v = result
               \<and> read_bits s 0 7 = Inr 68
               \<and> (\<exists>offset1 addr1 addr2 res_addr offset2 base1 base_res.
                     read_bits s 7 8 = Inr offset1 \<and> read_bits s 15 26 = Inr addr1
                     \<and> read_bits s 41 26 = Inr addr2 \<and> read_bits s 67 26 = Inr res_addr
                     \<and> read_bits s 93 8 = Inr offset2
                     \<and> py_getitem (data_memory s) addr1 = Inr base1
                     \<and> py_getitem (data_memory s) (base1 + offset1) = Inr operand1
                     \<and> py_getitem (data_memory s) addr2 = Inr operand2
                     \<and> py_getitem (data_memory s) res_addr = Inr base_res
                     \<and> effective_res_addr = base_res + offset2)
               \<and> result = (if operand1 \<ge> operand2 then 1 else 0))
          \<and> py_index (length (data_memory s)) target = Inr k
          \<and> k < length (data_memory s)
          \<and> data_memory s' = (data_memory s)[k := v]
          \<and> data_memory s' ! k = v
          \<and> (\<forall>j. j \<noteq> k \<longrightarrow> data_memory s' ! j = data_memory s ! j))"
proof -
  let ?target = "\<lambda>target v. (case t of
             TraceLoadConst address constant \<Rightarrow>
               target = address \<and> v = constant
               \<and> read_bits s 0 7 = Inr 111
               \<and> read_bits s 7 11 = Inr constant \<and> read_bits s 18 26 = Inr address
           | TraceReadMem dst_addr src_addr offset effective_addr v' \<Rightarrow>
               target = dst_addr \<and> v = v'
               \<and> read_bits s 0 7 = Inr 40
               \<and> read_bits s 7 8 = Inr offset \<and> read_bits s 15 26 = Inr src_addr
               \<and> read_bits s 41 26 = Inr dst_addr
               \<and> (\<exists>base. py_getitem (data_memory s) src_addr = Inr base
                     \<and> effective_addr = base + offset)
               \<and> py_getitem (data_memory s) effective_addr = Inr v'
           | TraceWriteMem dst_addr src_addr v' \<Rightarrow>
               target = dst_addr \<and> v = v'
               \<and> read_bits s 0 7 = Inr 101
               \<and> read_bits s 7 26 = Inr src_addr \<and> read_bits s 33 26 = Inr dst_addr
               \<and> py_getitem (data_memory s) src_addr = Inr v'
           | TraceGte effective_res_addr operand1 operand2 result \<Rightarrow>
               target = effective_res_addr \<and> v = result
               \<and> read_bits s 0 7 = Inr 68
               \<and> (\<exists>offset1 addr1 addr2 res_addr offset2 base1 base_res.
                     read_bits s 7 8 = Inr offset1 \<and> read_bits s 15 26 = Inr addr1
                     \<and> read_bits s 41 26 = Inr addr2 \<and> read_bits s 67 26 = Inr res_addr
                     \<and> read_bits s 93 8 = Inr offset2
                     \<and> py_getitem (data_memory s) addr1 = Inr base1
                     \<and> py_getitem (data_memory s) (base1 + offset1) = Inr operand1
                     \<and> py_getitem (data_memory s) addr2 = Inr operand2
                     \<and> py_getitem (data_memory s) res_addr = Inr base_res
                     \<and> effective_res_addr = base_res + offset2)
               \<and> result = (if operand1 \<ge> operand2 then 1 else 0))"
  from assms obtain opcode :: int where op: "read_bits s 0 7 = Inr opcode" and
    ex: "opcode = 111 \<and> execute_load_const s = (Inr t, s')
         \<or> opcode = 40 \<and> execute_read_mem s = (Inr t, s')
         \<or> opcode = 101 \<and> execute_write_mem s = (Inr t, s')
         \<or> opcode = 68 \<and> execute_gte s = (Inr t, s')"
    by (rule step_Some)
  from ex have "\<exists>target v. ?target target v \<and> py_setitem (data_memory s) target v = Inr (data_memory s')"
  proof (elim disjE conjE)
    assume o: "opcode = 111" and "execute_load_const s = (Inr t, s')"
    then show ?thesis
    proof (elim execute_load_const_Inr)
      fix c a m
      assume "read_bits s 7 11 = Inr c" "read_bits s 18 26 = Inr a"
        "py_setitem (data_memory s) a c = Inr m"
        "t = TraceLoadConst a c" "s' = s\<lparr>data_memory := m, pc := pc s + 6\<rparr>"
      with op o have "?target a c \<and> py_setitem (data_memory s) a c = Inr (data_memory s')"
        by simp
      then show ?thesis by blast
    qed
  next
    assume o: "opcode = 40" and "execute_read_mem s = (Inr t, s')"
    then show ?thesis
    proof (elim execute_read_mem_Inr)
      fix offset src_addr dst_addr base v m
      assume "read_bits s 7 8 = Inr offset" "read_bits s 15 26 = Inr src_addr"
        "read_bits s 41 26 = Inr dst_addr"
        "py_getitem (data_memory s) src_addr = Inr base"
        "py_getitem (data_memory s) (base + offset) = Inr v"
        "py_setitem (data_memory s) dst_addr v = Inr m"
        "t = TraceReadMem dst_addr src_addr offset (base + offset) v"
        "s' = s\<lparr>data_memory := m, pc := pc s + 9\<rparr>"
      with op o have "?target dst_addr v \<and> py_setitem (data_memory s) dst_addr v = Inr (data_memory s')"
        by simp
      then show ?thesis by blast
    qed
  next
    assume o: "opcode = 101" and "execute_write_mem s = (Inr t, s')"
    then show ?thesis
    proof (elim execute_write_mem_Inr)
      fix src_addr dst_addr v m
      assume "read_bits s 7 26 = Inr src_addr" "read_bits s 33 26 = Inr dst_addr"
        "py_getitem (data_memory s) src_addr = Inr v"
        "py_setitem (data_memory s) dst_addr v = Inr m"
        "t = TraceWriteMem dst_addr src_addr v" "s' = s\<lparr>data_memory := m, pc := pc s + 8\<rparr>"
      with op o have "?target dst_addr v \<and> py_setitem (data_memory s) dst_addr v = Inr (data_memory s')"
        by simp
      then show ?thesis by blast
    qed
  next
    assume o: "opcode = 68" and "execute_gte s = (Inr t, s')"
    then show ?thesis
    proof (elim execute_gte_Inr)
      fix offset1 addr1 addr2 res_addr offset2 base1 base_res operand1 operand2 :: int and m
      let ?r = "if operand1 \<ge> operand2 then 1 else 0 :: int"
      assume a: "read_bits s 7 8 = Inr offset1" "read_bits s 15 26 = Inr addr1"
        "read_bits s 41 26 = Inr addr2" "read_bits s 67 26 = Inr res_addr"
        "read_bits s 93 8 = Inr offset2"
        "py_getitem (data_memory s) addr1 = Inr base1"
        "py_getitem (data_memory s) res_addr = Inr base_res"
        "py_getitem (data_memory s) (base1 + offset1) = Inr operand1"
        "py_getitem (data_memory s) addr2 = Inr operand2"
        and w: "py_setitem (data_memory s) (base_res + offset2) (if operand1 \<ge> operand2 then 1 else 0) = Inr m"
        and tr: "t = TraceGte (base_res + offset2) operand1 operand2 (if operand1 \<ge> operand2 then 1 else 0)"
        and s': "s' = s\<lparr>data_memory := m, pc := pc s + 13\<rparr>"
      have "\<exists>offset1 addr1 addr2 res_addr offset2' base1 base_res'.
                     read_bits s 7 8 = Inr offset1 \<and> read_bits s 15 26 = Inr addr1
                     \<and> read_bits s 41 26 = Inr addr2 \<and> read_bits s 67 26 = Inr res_addr
                     \<and> read_bits s 93 8 = Inr offset2'
                     \<and> py_getitem (data_memory s) addr1 = Inr base1
                     \<and> py_getitem (data_memory s) (base1 + offset1) = Inr operand1
                     \<and> py_getitem (data_memory s) addr2 = Inr operand2
                     \<and> py_getitem (data_memory s) res_addr = Inr base_res'
                     \<and> base_res + offset2 = base_res' + offset2'"
        using a by blast
      with op o tr have "?target (base_res + offset2) ?r"
        by simp
      moreover from w s' have "py_setitem (data_memory s) (base_res + offset2) ?r = Inr (data_memory s')"
        by simp
      ultimately show ?thesis by blast
    qed
  qed
  then obtain target v where tg: "?target target v"
    and set: "py_setitem (data_memory s) target v = Inr (data_memory s')"
    by blast
  from py_setitem_Inr [OF set] obtain k where k: "py_index (length (data_memory s)) target = Inr k"
    and upd: "data_memory s' = (data_memory s)[k := v]"
    by blast
  from py_index_Inr [OF k] have kl: "k < length (data_memory s)"
    by simp
  have at: "data_memory s' ! k = v"
    using upd kl by simp
  have other: "\<forall>j. j \<noteq> k \<longrightarrow> data_memory s' ! j = data_memory s ! j"
    using upd by simp
  from tg k kl upd at other
  have "?target target v \<and> py_index (length (data_memory s)) target = Inr k
          \<and> k < length (data_memory s) \<and> data_memory s' = (data_memory s)[k := v]
          \<and> data_memory s' ! k = v
          \<and> (\<forall>j. j \<noteq> k \<longrightarrow> data_memory s' ! j = data_memory s ! j)"
    by simp
  then have "\<exists>target v k. ?target target v \<and> py_index (length (data_memory s)) target = Inr k
          \<and> k < length (data_memory s) \<and> data_memory s' = (data_memory s)[k := v]
          \<and> data_memory s' ! k = v
          \<and> (\<forall>j. j \<noteq> k \<longrightarrow> data_memory s' ! j = data_memory s ! j)"
    by blast
  moreover have "code_memory s' = code_memory s"
    using step_advances [OF assms] by simp
  moreover have "length (data_memory s') = length (data_memory s)"
    using upd by simp
  ultimately show ?thesis by blast
qed

text \<open>
  One machine for each variant. In each the cell stored to held another value before:
  3 becomes 9, 7 becomes 5, 1 becomes 7, 7 becomes 1.
\<close>

theorem step_writes_one_cell_witness:
  "step load_machine = (Inr (Some (TraceLoadConst 2 9)), load_done)
   \<and> (\<exists>k. py_index (length (data_memory load_machine)) 2 = Inr k
          \<and> data_memory load_done = (data_memory load_machine)[k := 9]
          \<and> data_memory load_done ! k = 9)
   \<and> step read_machine = (Inr (Some (TraceReadMem 3 0 1 2 5)), read_done)
   \<and> (\<exists>k. py_index (length (data_memory read_machine)) 3 = Inr k
          \<and> data_memory read_done = (data_memory read_machine)[k := 5]
          \<and> data_memory read_done ! k = 5)
   \<and> step write_machine = (Inr (Some (TraceWriteMem 0 3 7)), write_done)
   \<and> (\<exists>k. py_index (length (data_memory write_machine)) 0 = Inr k
          \<and> data_memory write_done = (data_memory write_machine)[k := 7]
          \<and> data_memory write_done ! k = 7)
   \<and> step gte_machine = (Inr (Some (TraceGte 3 3 3 1)), gte_done)
   \<and> (\<exists>k. py_index (length (data_memory gte_machine)) 3 = Inr k
          \<and> data_memory gte_done = (data_memory gte_machine)[k := 1]
          \<and> data_memory gte_done ! k = 1)
   \<and> code_memory gte_done = code_memory gte_machine
   \<and> length (data_memory gte_done) = length (data_memory gte_machine)
   \<and> data_memory load_machine ! 2 = 3 \<and> data_memory read_machine ! 3 = 7
   \<and> data_memory write_machine ! 0 = 1 \<and> data_memory gte_machine ! 3 = 7"
proof -
  have l: "\<exists>k. py_index (length (data_memory load_machine)) 2 = Inr k
          \<and> data_memory load_done = (data_memory load_machine)[k := 9]
          \<and> data_memory load_done ! k = 9"
    using step_writes_one_cell [OF step_load_machine] by simp blast
  have r: "\<exists>k. py_index (length (data_memory read_machine)) 3 = Inr k
          \<and> data_memory read_done = (data_memory read_machine)[k := 5]
          \<and> data_memory read_done ! k = 5"
    using step_writes_one_cell [OF step_read_machine] by simp blast
  have w: "\<exists>k. py_index (length (data_memory write_machine)) 0 = Inr k
          \<and> data_memory write_done = (data_memory write_machine)[k := 7]
          \<and> data_memory write_done ! k = 7"
    using step_writes_one_cell [OF step_write_machine] by simp blast
  have g: "\<exists>k. py_index (length (data_memory gte_machine)) 3 = Inr k
          \<and> data_memory gte_done = (data_memory gte_machine)[k := 1]
          \<and> data_memory gte_done ! k = 1"
    using step_writes_one_cell [OF step_gte_machine] by simp blast
  have f: "code_memory gte_done = code_memory gte_machine"
    "length (data_memory gte_done) = length (data_memory gte_machine)"
    using step_writes_one_cell [OF step_gte_machine] by simp_all
  have old: "data_memory load_machine ! 2 = 3" "data_memory read_machine ! 3 = 7"
    "data_memory write_machine ! 0 = 1" "data_memory gte_machine ! 3 = 7"
    by (simp_all add: copy_sample_defs sample_defs)
  show ?thesis
    using l r w g f old step_load_machine step_read_machine step_write_machine step_gte_machine
    by blast
qed

text \<open>
  Claim C10. From the zero-initialised memory of a new machine, after a binary is
  loaded and any sequence of instructions is executed without error, every cell of the
  data memory holds an integer in \<open>[0, 2047]\<close>.
\<close>

theorem cells_stay_in_range:
  assumes "executed (load_program (init_vm memory_size) binary_code) s"
  shows "\<forall>v \<in> set (data_memory s). 0 \<le> v \<and> v \<le> 2047"
  using assms
  by (rule executed_keeps_range) (simp add: load_program_def init_vm_def)

text \<open>The first instruction of \<open>scenario_b\<close> on twelve cells stores 10.\<close>

theorem cells_stay_in_range_witness:
  "executed (load_program (init_vm 12) scenario_b)
     \<lparr>data_memory = (replicate (nat 12) 0)[0 := 10], code_memory = scenario_b, pc = 6\<rparr>
   \<and> (10::int) \<in> set ((replicate (nat 12) 0)[0 := 10])
   \<and> (0::int) \<le> 10 \<and> (10::int) \<le> 2047"
proof -
  have start: "load_program (init_vm 12) scenario_b
      = \<lparr>data_memory = replicate (nat 12) 0, code_memory = scenario_b, pc = 0\<rparr>"
    by (simp add: load_program_def init_vm_def)
  have "(10::int) < 12"
    by simp
  from executed_more [OF executed_none scenario_b_step1 [OF this]]
  have e: "executed (load_program (init_vm 12) scenario_b)
     \<lparr>data_memory = (replicate (nat 12) 0)[0 := 10], code_memory = scenario_b, pc = 6\<rparr>"
    by (simp only: start)
  have m: "(10::int) \<in> set ((replicate (nat 12) 0)[0 := 10])"
    by (rule set_update_memI) simp
  from cells_stay_in_range [OF e] m have "(0::int) \<le> 10 \<and> (10::int) \<le> 2047"
    by auto
  with e m show ?thesis
    by blast
qed

end
